theory Spec2Isabelle
  imports Main "HOL-Library.Word"
begin

section \<open>JavaScript strings and characters\<close>

text \<open>
  A JavaScript string is a sequence of 16-bit code units.  The header value, every
  intermediate value and the returned file name of \<^verbatim>\<open>src/core/network_util.js\<close> are such
  strings.  \<open>js\<close> turns a literal into code units.
\<close>

type_synonym jschar = "16 word"
type_synonym jsstring = "jschar list"

definition js :: "string \<Rightarrow> jsstring" where
  "js s = map of_char s"

abbreviation QUOT :: jschar where "QUOT \<equiv> 0x22"        \<comment> \<open>the double quote\<close>
abbreviation PERCENT :: jschar where "PERCENT \<equiv> 0x25"
abbreviation APOS :: jschar where "APOS \<equiv> 0x27"        \<comment> \<open>the single quote\<close>
abbreviation STAR :: jschar where "STAR \<equiv> 0x2A"
abbreviation MINUS :: jschar where "MINUS \<equiv> 0x2D"
abbreviation SEMI :: jschar where "SEMI \<equiv> 0x3B"
abbreviation EQUALS :: jschar where "EQUALS \<equiv> 0x3D"
abbreviation QMARK :: jschar where "QMARK \<equiv> 0x3F"
abbreviation BACKSLASH :: jschar where "BACKSLASH \<equiv> 0x5C"
abbreviation UNDERSCORE :: jschar where "UNDERSCORE \<equiv> 0x5F"
abbreviation SPACE :: jschar where "SPACE \<equiv> 0x20"

text \<open>The class \<^verbatim>\<open>\s\<close> of ECMAScript regular expressions: white space and line terminators.\<close>

definition is_space :: "jschar \<Rightarrow> bool" where
  "is_space c =
     (if 0x09 \<le> c \<and> c \<le> 0x0D then True
      else if 0x2000 \<le> c \<and> c \<le> 0x200A then True
      else c \<in> set [0x20, 0xA0, 0x1680, 0x2028, 0x2029, 0x202F, 0x205F, 0x3000, 0xFEFF])"

text \<open>The characters that \<^verbatim>\<open>.\<close> does not match.\<close>

definition is_line_terminator :: "jschar \<Rightarrow> bool" where
  "is_line_terminator c = (c \<in> set [0x0A, 0x0D, 0x2028, 0x2029])"

definition is_digit :: "jschar \<Rightarrow> bool" where
  "is_digit c = (0x30 \<le> c \<and> c \<le> 0x39)"

definition is_upper :: "jschar \<Rightarrow> bool" where
  "is_upper c = (0x41 \<le> c \<and> c \<le> 0x5A)"

definition is_lower :: "jschar \<Rightarrow> bool" where
  "is_lower c = (0x61 \<le> c \<and> c \<le> 0x7A)"

text \<open>\<^verbatim>\<open>[0-9a-fA-F]\<close>\<close>

definition is_hex :: "jschar \<Rightarrow> bool" where
  "is_hex c = (if is_digit c then True
               else if 0x41 \<le> c \<and> c \<le> 0x46 then True
               else 0x61 \<le> c \<and> c \<le> 0x66)"

definition hexval :: "jschar \<Rightarrow> jschar" where
  "hexval c = (if is_digit c then c - 0x30
               else if 0x41 \<le> c \<and> c \<le> 0x46 then c - 0x37
               else c - 0x57)"

text \<open>\<^verbatim>\<open>[\w-]\<close>: letters, digits, the underscore, and the hyphen.\<close>

definition is_word_or_dash :: "jschar \<Rightarrow> bool" where
  "is_word_or_dash c =
     (if is_digit c then True else if is_upper c then True else if is_lower c then True
      else if c = UNDERSCORE then True else c = MINUS)"

text \<open>
  The flag \<^verbatim>\<open>i\<close> compares canonicalised characters.  ECMAScript's Canonicalize (without the
  flag \<^verbatim>\<open>u\<close>) maps a character to its upper case, and leaves a character from 128 on alone
  when its upper case is below 128.  All the letters, digits and marks of the patterns of
  this file are ASCII, so only the ASCII part of the mapping decides a comparison with them.
\<close>

definition canonicalize :: "jschar \<Rightarrow> jschar" where
  "canonicalize c = (if is_lower c then c - 0x20 else c)"

fun match_ci :: "jsstring \<Rightarrow> jsstring \<Rightarrow> jsstring option" where
  "match_ci [] s = Some s"
| "match_ci (p # ps) [] = None"
| "match_ci (p # ps) (c # cs) =
     (if canonicalize c = canonicalize p then match_ci ps cs else None)"

section \<open>toParamRegExp\<close>

text \<open>
  \<^verbatim>\<open>(?:^|;)\s*ATTR\s*=\s*([^";\s][^;\s]*|"(?:[^"\\]|\\"?)+"?)\<close>

  The matcher follows the backtracking order of the pattern.  An attribute pattern is a
  function from the rest of the input to its captures and what follows it.  Every greedy
  repetition of the pattern is followed by something that cannot start with a character it
  gave back (\<^verbatim>\<open>\s*\<close> by a letter, by \<^verbatim>\<open>=\<close>, or by a value, which does not start with
  white space), so the longest repetition is the only one that can succeed.
\<close>

type_synonym 'c attr_matcher = "jsstring \<Rightarrow> ('c \<times> jsstring) option"

text \<open>\<^verbatim>\<open>(?:[^"\\]|\\"?)+\<close>, greedy: the text matched and the rest of the input.\<close>

fun quoted_body :: "jsstring \<Rightarrow> jsstring \<times> jsstring" where
  "quoted_body [] = ([], [])"
| "quoted_body [c] = (if c = QUOT then ([], [c]) else ([c], []))"
| "quoted_body (c # d # ds) =
     (if c = QUOT then ([], c # d # ds)
      else if c = BACKSLASH \<and> d = QUOT then
        (case quoted_body ds of (b, r) \<Rightarrow> (c # d # b, r))
      else (case quoted_body (d # ds) of (b, r) \<Rightarrow> (c # b, r)))"

text \<open>The captured value: a token, or else a quoted string whose closing quote may miss.\<close>

definition match_value :: "jsstring \<Rightarrow> (jsstring \<times> jsstring) option" where
  "match_value s =
     (case s of
        [] \<Rightarrow> None
      | c # cs \<Rightarrow>
          if c = QUOT then
            (case quoted_body cs of
               (b, r) \<Rightarrow>
                 if b = [] then None
                 else (case r of
                         [] \<Rightarrow> Some (c # b, [])
                       | q # r' \<Rightarrow> if q = QUOT then Some (c # b @ [q], r') else Some (c # b, r)))
          else if c = SEMI then None
          else if is_space c then None
          else Some (c # takeWhile (\<lambda>x. if x = SEMI then False else \<not> is_space x) cs,
                     dropWhile (\<lambda>x. if x = SEMI then False else \<not> is_space x) cs))"

text \<open>What follows \<^verbatim>\<open>(?:^|;)\<close>.\<close>

definition param_body :: "'c attr_matcher \<Rightarrow> jsstring \<Rightarrow> (('c \<times> jsstring) \<times> jsstring) option" where
  "param_body attr s =
     (case attr (dropWhile is_space s) of
        None \<Rightarrow> None
      | Some (caps, s2) \<Rightarrow>
          (case dropWhile is_space s2 of
             [] \<Rightarrow> None
           | e # s4 \<Rightarrow>
               if e = EQUALS then
                 (case match_value (dropWhile is_space s4) of
                    None \<Rightarrow> None
                  | Some (v, rest) \<Rightarrow> Some ((caps, v), rest))
               else None))"

text \<open>
  A match that starts at the current position.  \<open>at_start\<close> says that the position is the
  start of the whole input, where \<^verbatim>\<open>^\<close> matches; the alternative \<^verbatim>\<open>;\<close> is tried second.
\<close>

definition param_at :: "'c attr_matcher \<Rightarrow> bool \<Rightarrow> jsstring \<Rightarrow> (('c \<times> jsstring) \<times> jsstring) option" where
  "param_at attr at_start s =
     (case (if at_start then param_body attr s else None) of
        Some r \<Rightarrow> Some r
      | None \<Rightarrow>
          (case s of
             [] \<Rightarrow> None
           | c # cs \<Rightarrow> if c = SEMI then param_body attr cs else None))"

text \<open>
  \<^verbatim>\<open>RegExp.prototype.exec\<close>: the leftmost match from the current position on.  The result is
  the captures (those of the attribute, and the value) and the input after the match.
\<close>

fun toParamRegExp_exec :: "'c attr_matcher \<Rightarrow> bool \<Rightarrow> jsstring \<Rightarrow> (('c \<times> jsstring) \<times> jsstring) option" where
  "toParamRegExp_exec attr at_start [] = param_at attr at_start []"
| "toParamRegExp_exec attr at_start (c # cs) =
     (case param_at attr at_start (c # cs) of
        Some r \<Rightarrow> Some r
      | None \<Rightarrow> toParamRegExp_exec attr False cs)"

text \<open>The three attribute patterns, all used with the flag \<^verbatim>\<open>i\<close>.\<close>

text \<open>\<^verbatim>\<open>filename\*\<close>\<close>

definition attr_filename_star :: "unit attr_matcher" where
  "attr_filename_star s = map_option (Pair ()) (match_ci (js ''filename*'') s)"

text \<open>\<^verbatim>\<open>filename\<close>\<close>

definition attr_filename :: "unit attr_matcher" where
  "attr_filename s = map_option (Pair ()) (match_ci (js ''filename'') s)"

text \<open>
  \<^verbatim>\<open>filename\*((?!0\d)\d+)(\*?)\<close>: the captures are the digits and the optional star.
\<close>

definition attr_filename_cont :: "(jsstring \<times> jsstring) attr_matcher" where
  "attr_filename_cont s =
     (case match_ci (js ''filename*'') s of
        None \<Rightarrow> None
      | Some s1 \<Rightarrow>
          if (case s1 of d # e # _ \<Rightarrow> d = 0x30 \<and> is_digit e | _ \<Rightarrow> False) then None
          else if takeWhile is_digit s1 = [] then None
          else (case dropWhile is_digit s1 of
                  [] \<Rightarrow> Some ((takeWhile is_digit s1, []), [])
                | x # s3 \<Rightarrow>
                    if x = STAR then Some ((takeWhile is_digit s1, [x]), s3)
                    else Some ((takeWhile is_digit s1, []), x # s3)))"

section \<open>Built-in functions of the language and of the platform\<close>

text \<open>
  A built-in function that can throw returns a sum: \<open>Inl\<close> is the exception thrown.
\<close>

datatype js_error = RangeError | TypeError | ReferenceError | URIError | InvalidCharacterError

text \<open>
  \<^verbatim>\<open>TextDecoder\<close> and \<^verbatim>\<open>atob\<close> belong to the platform, not to the language, and the
  source expects that they may be missing or fail.  They are parameters of the model.
  \<open>TextDecoder_decode env label bytes\<close> stands for
  \<^verbatim>\<open>new TextDecoder(label, {fatal: true}).decode(new Uint8Array(bytes))\<close>.
\<close>

record env =
  TextDecoder_decode :: "jsstring \<Rightarrow> 8 word list \<Rightarrow> js_error + jsstring"
  atob :: "jsstring \<Rightarrow> js_error + jsstring"

text \<open>A bare ECMAScript engine: both platform functions are undefined names.\<close>

definition bare_env :: env where
  "bare_env = \<lparr>TextDecoder_decode = (\<lambda>label bytes. Inl ReferenceError),
               atob = (\<lambda>text. Inl ReferenceError)\<rparr>"

text \<open>Two and four hexadecimal digits at the start of a string, as a number.\<close>

definition hex2 :: "jsstring \<Rightarrow> jschar option" where
  "hex2 s =
     (case s of
        a # b # _ \<Rightarrow> if is_hex a \<and> is_hex b then Some (hexval a * 16 + hexval b) else None
      | _ \<Rightarrow> None)"

definition hex4 :: "jsstring \<Rightarrow> jschar option" where
  "hex4 s =
     (case s of
        a # b # c # d # _ \<Rightarrow>
          if is_hex a \<and> is_hex b \<and> is_hex c \<and> is_hex d
          then Some (hexval a * 4096 + hexval b * 256 + hexval c * 16 + hexval d) else None
      | _ \<Rightarrow> None)"

text \<open>
  \<^verbatim>\<open>unescape\<close> (ECMAScript, B.2.1.2): \<^verbatim>\<open>%uXXXX\<close> and \<^verbatim>\<open>%XX\<close> become the code unit
  they name, everything else is copied.  It never throws.
\<close>

function unescape :: "jsstring \<Rightarrow> jsstring" where
  "unescape [] = []"
| "unescape (c # s) =
     (if c = PERCENT then
        (case (case s of [] \<Rightarrow> None | u # t \<Rightarrow> if u = 0x75 then hex4 t else None) of
           Some v \<Rightarrow> v # unescape (drop 5 s)
         | None \<Rightarrow>
             (case hex2 s of
                Some v \<Rightarrow> v # unescape (drop 2 s)
              | None \<Rightarrow> c # unescape s))
      else c # unescape s)"
  by pat_completeness auto
termination
  by (relation "measure length") auto

text \<open>
  \<^verbatim>\<open>escape\<close> (ECMAScript, B.2.1.1): every code unit outside
  \<^verbatim>\<open>A-Za-z0-9@*_+-./\<close> becomes \<^verbatim>\<open>%XX\<close>, or \<^verbatim>\<open>%uXXXX\<close> from 256 on.
\<close>

definition hexdigit :: "jschar \<Rightarrow> jschar" where
  "hexdigit n = (if n < 10 then 0x30 + n else 0x37 + n)"

definition escape_unit :: "jschar \<Rightarrow> jsstring" where
  "escape_unit c =
     (if is_digit c then [c] else if is_upper c then [c] else if is_lower c then [c]
      else if c \<in> set [0x40, 0x2A, 0x5F, 0x2B, 0x2D, 0x2E, 0x2F] then [c]
      else if c < 256 then [PERCENT, hexdigit (c div 16), hexdigit (c mod 16)]
      else [PERCENT, 0x75, hexdigit (c div 4096), hexdigit (c div 256 mod 16),
            hexdigit (c div 16 mod 16), hexdigit (c mod 16)])"

definition escape :: "jsstring \<Rightarrow> jsstring" where
  "escape s = concat (map escape_unit s)"

text \<open>
  \<^verbatim>\<open>decodeURIComponent\<close> (ECMAScript, Decode with an empty reserved set).  An escape
  \<^verbatim>\<open>%XX\<close> below 128 is that code unit; otherwise the escapes must spell one code point in
  UTF-8, which is appended in UTF-16.  Everything else throws \<open>URIError\<close>.
\<close>

text \<open>The number of leading 1 bits of a byte that is at least 128 (5 stands for 5 or more).\<close>

definition leading_ones :: "nat \<Rightarrow> nat" where
  "leading_ones b =
     (if b < 0xC0 then 1 else if b < 0xE0 then 2 else if b < 0xF0 then 3
      else if b < 0xF8 then 4 else 5)"

text \<open>The \<open>n\<close> escapes \<^verbatim>\<open>%XX\<close> that follow, each of the form 10xxxxxx: their low six bits.\<close>

fun continuation_octets :: "nat \<Rightarrow> jsstring \<Rightarrow> nat list option" where
  "continuation_octets 0 s = Some []"
| "continuation_octets (Suc n) s =
     (case s of
        [] \<Rightarrow> None
      | p # t \<Rightarrow>
          if p = PERCENT then
            (case hex2 t of
               None \<Rightarrow> None
             | Some b \<Rightarrow>
                 if 0x80 \<le> b \<and> b < 0xC0 then
                   (case continuation_octets n (drop 2 t) of
                      None \<Rightarrow> None
                    | Some bs \<Rightarrow> Some (unat b mod 64 # bs))
                 else None)
          else None)"

text \<open>
  The code point of a lead byte with \<open>n\<close> leading 1 bits and its continuation octets, when
  the octets are a valid UTF-8 encoding: not overlong, no surrogate, at most 0x10FFFF.
\<close>

definition utf8_code_point :: "nat \<Rightarrow> nat \<Rightarrow> nat list \<Rightarrow> nat option" where
  "utf8_code_point n b bs =
     (let v = foldl (\<lambda>a x. a * 64 + x) (b mod 2 ^ (7 - n)) bs;
          least = (if n = 2 then 0x80 else if n = 3 then 0x800 else 0x10000)
      in if v < least then None
         else if 0xD800 \<le> v \<and> v < 0xE000 then None
         else if 0x10FFFF < v then None
         else Some v)"

definition utf16_encoding :: "nat \<Rightarrow> jsstring" where
  "utf16_encoding v =
     (if v < 0x10000 then [of_nat v]
      else [of_nat ((v - 0x10000) div 1024 mod 1024 + 0xD800),
            of_nat ((v - 0x10000) mod 1024 + 0xDC00)])"

function decodeURIComponent :: "jsstring \<Rightarrow> js_error + jsstring" where
  "decodeURIComponent [] = Inr []"
| "decodeURIComponent (c # s) =
     (if c = PERCENT then
        (case hex2 s of
           None \<Rightarrow> Inl URIError
         | Some b \<Rightarrow>
             if b < 0x80 then
               (case decodeURIComponent (drop 2 s) of
                  Inl e \<Rightarrow> Inl e
                | Inr r \<Rightarrow> Inr (b # r))
             else if leading_ones (unat b) = 1 then Inl URIError
             else if 4 < leading_ones (unat b) then Inl URIError
             else
               (case continuation_octets (leading_ones (unat b) - 1) (drop 2 s) of
                  None \<Rightarrow> Inl URIError
                | Some bs \<Rightarrow>
                    (case utf8_code_point (leading_ones (unat b)) (unat b) bs of
                       None \<Rightarrow> Inl URIError
                     | Some v \<Rightarrow>
                         (case decodeURIComponent
                                 (drop (3 * (leading_ones (unat b) - 1)) (drop 2 s)) of
                            Inl e \<Rightarrow> Inl e
                          | Inr r \<Rightarrow> Inr (utf16_encoding v @ r)))))
      else (case decodeURIComponent s of
              Inl e \<Rightarrow> Inl e
            | Inr r \<Rightarrow> Inr (c # r)))"
  by pat_completeness auto
termination
  by (relation "measure length") auto

text \<open>\<^verbatim>\<open>parseInt(n, 10)\<close> on a string of decimal digits.\<close>

definition parseInt10 :: "jsstring \<Rightarrow> nat" where
  "parseInt10 ds = foldl (\<lambda>a d. a * 10 + unat (d - 0x30)) 0 ds"

text \<open>\<^verbatim>\<open>parts.join(sep)\<close>\<close>

fun join :: "jsstring \<Rightarrow> jsstring list \<Rightarrow> jsstring" where
  "join sep [] = []"
| "join sep [p] = p"
| "join sep (p # q # ps) = p @ sep @ join sep (q # ps)"

section \<open>getFilenameFromContentDispositionHeader\<close>

text \<open>
  The variable \<^verbatim>\<open>needsEncodingFixup\<close> of the enclosing function is read and written by the
  nested functions.  In the model every function that can write it takes the flag and
  returns it with its result.  A function that calls a built-in function that can throw
  returns a sum, and \<^verbatim>\<open>try\<close>/\<^verbatim>\<open>catch\<close> is the case distinction on it.
\<close>

subsection \<open>textdecode\<close>

text \<open>\<^verbatim>\<open>/^[\x00-\xFF]+$/.test(value)\<close>\<close>

definition test_bytes :: "jsstring \<Rightarrow> bool" where
  "test_bytes value = (if value = [] then False else list_all (\<lambda>c. c \<le> 0xFF) value)"

text \<open>\<^verbatim>\<open>/^utf-?8$/i.test(encoding)\<close>\<close>

definition test_utf8 :: "jsstring \<Rightarrow> bool" where
  "test_utf8 encoding = (map canonicalize encoding \<in> set [js ''UTF8'', js ''UTF-8''])"

definition textdecode :: "env \<Rightarrow> jsstring \<Rightarrow> jsstring \<Rightarrow> bool \<Rightarrow> js_error + (jsstring \<times> bool)" where
  "textdecode env encoding value needsEncodingFixup =
     (if encoding \<noteq> [] then
        if \<not> test_bytes value then Inr (value, needsEncodingFixup)
        else
          (case TextDecoder_decode env encoding (map ucast value) of
             Inr decoded \<Rightarrow> Inr (decoded, False)
           | Inl e \<Rightarrow>
               if test_utf8 encoding then
                 (case decodeURIComponent (escape value) of
                    Inr decoded \<Rightarrow> Inr (decoded, False)
                  | Inl err \<Rightarrow> Inr (value, needsEncodingFixup))
               else Inr (value, needsEncodingFixup))
      else Inr (value, needsEncodingFixup))"

subsection \<open>fixupEncoding\<close>

text \<open>\<^verbatim>\<open>/[\x80-\xff]/.test(value)\<close>\<close>

definition test_high :: "jsstring \<Rightarrow> bool" where
  "test_high value = list_ex (\<lambda>c. 0x80 \<le> c \<and> c \<le> 0xFF) value"

definition fixupEncoding :: "env \<Rightarrow> jsstring \<Rightarrow> bool \<Rightarrow> js_error + (jsstring \<times> bool)" where
  "fixupEncoding env value needsEncodingFixup =
     (if needsEncodingFixup \<and> test_high value then
        (case textdecode env (js ''utf-8'') value needsEncodingFixup of
           Inl e \<Rightarrow> Inl e
         | Inr (value1, flag1) \<Rightarrow>
             if flag1 then textdecode env (js ''iso-8859-1'') value1 flag1
             else Inr (value1, flag1))
      else Inr (value, needsEncodingFixup))"

subsection \<open>rfc2616unquote\<close>

text \<open>
  \<^verbatim>\<open>value.split('\\"')\<close>: the parts between the occurrences of a backslash followed by a
  quote.  There is always a first part; the result is it and the other parts.
\<close>

fun split_escaped_quote :: "jsstring \<Rightarrow> jsstring \<times> jsstring list" where
  "split_escaped_quote [] = ([], [])"
| "split_escaped_quote [a] = ([a], [])"
| "split_escaped_quote (a # b # t) =
     (if a = BACKSLASH \<and> b = QUOT then
        (case split_escaped_quote t of (p, ps) \<Rightarrow> ([], p # ps))
      else (case split_escaped_quote (b # t) of (p, ps) \<Rightarrow> (a # p, ps)))"

text \<open>\<^verbatim>\<open>.replace(/\\(.)/g, '$1')\<close>: a backslash before anything but a line terminator goes.\<close>

fun remove_backslashes :: "jsstring \<Rightarrow> jsstring" where
  "remove_backslashes [] = []"
| "remove_backslashes [a] = [a]"
| "remove_backslashes (a # b # t) =
     (if a = BACKSLASH \<and> \<not> is_line_terminator b then b # remove_backslashes t
      else a # remove_backslashes (b # t))"

text \<open>
  The loop over the parts: the first part that holds a quote is cut there and is the last
  one (\<^verbatim>\<open>parts.length = i + 1\<close>).
\<close>

fun unquote_parts :: "jsstring list \<Rightarrow> jsstring list" where
  "unquote_parts [] = []"
| "unquote_parts (p # ps) =
     (if QUOT \<in> set p then [remove_backslashes (takeWhile (\<lambda>c. c \<noteq> QUOT) p)]
      else remove_backslashes p # unquote_parts ps)"

definition rfc2616unquote :: "jsstring \<Rightarrow> jsstring" where
  "rfc2616unquote value =
     (case value of
        [] \<Rightarrow> value
      | c # rest \<Rightarrow>
          if c = QUOT then
            (case split_escaped_quote rest of (p, ps) \<Rightarrow> join [QUOT] (unquote_parts (p # ps)))
          else value)"

subsection \<open>rfc5987decode\<close>

definition rfc5987decode :: "env \<Rightarrow> jsstring \<Rightarrow> bool \<Rightarrow> js_error + (jsstring \<times> bool)" where
  "rfc5987decode env extvalue needsEncodingFixup =
     (if APOS \<in> set extvalue then
        (let encoding = takeWhile (\<lambda>c. c \<noteq> APOS) extvalue;
             langvalue = drop 1 (dropWhile (\<lambda>c. c \<noteq> APOS) extvalue);
             value = (if APOS \<in> set langvalue
                      then drop 1 (dropWhile (\<lambda>c. c \<noteq> APOS) langvalue)
                      else langvalue)
         in textdecode env encoding value needsEncodingFixup)
      else Inr (extvalue, needsEncodingFixup))"

subsection \<open>rfc2047decode\<close>

text \<open>
  \<^verbatim>\<open>((?:[^?]|\?(?!=))*)\?=\<close>: the text up to the first \<^verbatim>\<open>?=\<close>, and what follows it.
  Without a \<^verbatim>\<open>?=\<close> there is no match.
\<close>

fun encoded_text :: "jsstring \<Rightarrow> (jsstring \<times> jsstring) option" where
  "encoded_text [] = None"
| "encoded_text [c] = None"
| "encoded_text (c # d # ds) =
     (if c = QMARK \<and> d = EQUALS then Some ([], ds)
      else (case encoded_text (d # ds) of
              None \<Rightarrow> None
            | Some (t, r) \<Rightarrow> Some (c # t, r)))"

text \<open>
  \<^verbatim>\<open>=\?([\w-]*)\?([QqBb])\?((?:[^?]|\?(?!=))*)\?=\<close> at the start of the input: the three
  captures and the input after the match.
\<close>

definition match_encoded_word :: "jsstring \<Rightarrow> ((jsstring \<times> jschar \<times> jsstring) \<times> jsstring) option" where
  "match_encoded_word s =
     (case s of
        e # q # s1 \<Rightarrow>
          if e = EQUALS \<and> q = QMARK then
            (case dropWhile is_word_or_dash s1 of
               q2 # enc # q3 # s2 \<Rightarrow>
                 if q2 = QMARK \<and> enc \<in> set (js ''QqBb'') \<and> q3 = QMARK then
                   (case encoded_text s2 of
                      None \<Rightarrow> None
                    | Some (text, rest) \<Rightarrow>
                        Some ((takeWhile is_word_or_dash s1, enc, text), rest))
                 else None
             | _ \<Rightarrow> None)
          else None
      | _ \<Rightarrow> None)"

text \<open>\<^verbatim>\<open>.replace(/=([0-9a-fA-F]{2})/g, ...)\<close> with \<^verbatim>\<open>String.fromCharCode(parseInt(hex, 16))\<close>\<close>

fun replace_hex :: "jsstring \<Rightarrow> jsstring" where
  "replace_hex [] = []"
| "replace_hex (c # s) =
     (if c = EQUALS then
        (case hex2 s of
           Some v \<Rightarrow> v # replace_hex (drop 2 s)
         | None \<Rightarrow> c # replace_hex s)
      else c # replace_hex s)"

text \<open>The function given to \<^verbatim>\<open>replace\<close>: what one encoded word becomes.\<close>

definition decode_word ::
  "env \<Rightarrow> jsstring \<Rightarrow> jschar \<Rightarrow> jsstring \<Rightarrow> bool \<Rightarrow> js_error + (jsstring \<times> bool)" where
  "decode_word env charset encoding text needsEncodingFixup =
     (if encoding \<in> set (js ''qQ'') then
        textdecode env charset
          (replace_hex (map (\<lambda>c. if c = UNDERSCORE then SPACE else c) text))
          needsEncodingFixup
      else
        textdecode env charset
          (case atob env text of Inr decoded \<Rightarrow> decoded | Inl e \<Rightarrow> text)
          needsEncodingFixup)"

text \<open>
  \<^verbatim>\<open>value.replace(/=\?...\?=/g, function ...)\<close>: every encoded word, from left to right, is
  replaced by what the function returns for it; the rest is copied.
\<close>

function replace_encoded_words :: "env \<Rightarrow> jsstring \<Rightarrow> bool \<Rightarrow> js_error + (jsstring \<times> bool)" where
  "replace_encoded_words env [] flag = Inr ([], flag)"
| "replace_encoded_words env (c # cs) flag =
     (case match_encoded_word (c # cs) of
        None \<Rightarrow>
          (case replace_encoded_words env cs flag of
             Inl e \<Rightarrow> Inl e
           | Inr (r, flag1) \<Rightarrow> Inr (c # r, flag1))
      | Some ((charset, encoding, txt), rest) \<Rightarrow>
          (case decode_word env charset encoding txt flag of
             Inl e \<Rightarrow> Inl e
           | Inr (w, flag1) \<Rightarrow>
               (case replace_encoded_words env rest flag1 of
                  Inl e \<Rightarrow> Inl e
                | Inr (r, flag2) \<Rightarrow> Inr (w @ r, flag2))))"
  by pat_completeness auto
termination
proof -
  have et: "encoded_text s = Some (t, r) \<Longrightarrow> length r < length s" for s t r
    by (induction s arbitrary: t rule: encoded_text.induct)
       (auto split: if_splits option.splits)
  have mw: "match_encoded_word s = Some (x, r) \<Longrightarrow> length r < length s" for s x r
  proof -
    assume a: "match_encoded_word s = Some (x, r)"
    then obtain e q s1 q2 enc q3 s2 t where
      s: "s = e # q # s1" and d: "dropWhile is_word_or_dash s1 = q2 # enc # q3 # s2"
      and t: "encoded_text s2 = Some (t, r)"
      by (auto simp: match_encoded_word_def split: list.splits if_splits option.splits)
    have "length (dropWhile is_word_or_dash s1) \<le> length s1"
      by (rule length_dropWhile_le)
    with d have "length s2 < length s1" by simp
    with et [OF t] s show ?thesis by simp
  qed
  show ?thesis
    apply (relation "measure (\<lambda>(env, s, flag). length s)")
      apply simp
     apply simp
    apply (clarsimp dest!: mw)
    done
qed

text \<open>\<^verbatim>\<open>/[\x00-\x19\x80-\xff]/.test(value)\<close>\<close>

definition test_control_or_high :: "jsstring \<Rightarrow> bool" where
  "test_control_or_high value =
     list_ex (\<lambda>c. if c \<le> 0x19 then True else 0x80 \<le> c \<and> c \<le> 0xFF) value"

definition rfc2047decode :: "env \<Rightarrow> jsstring \<Rightarrow> bool \<Rightarrow> js_error + (jsstring \<times> bool)" where
  "rfc2047decode env value needsEncodingFixup =
     (if take 2 value \<noteq> js ''=?'' \<or> test_control_or_high value
      then Inr (value, needsEncodingFixup)
      else replace_encoded_words env value needsEncodingFixup)"

subsection \<open>rfc2231getparam\<close>

text \<open>
  The array \<^verbatim>\<open>matches\<close> has holes: it is the map of the indices that are set, and the
  length, one more than the largest index set.  Indices are natural numbers; the numbers
  of the source agree with them below \<open>2^32 - 1\<close>, far beyond the number of parameters
  that a header can hold.
\<close>

record 'a js_array =
  elems :: "nat \<rightharpoonup> 'a"
  len :: nat

definition empty_array :: "'a js_array" where
  "empty_array = \<lparr>elems = Map.empty, len = 0\<rparr>"

definition array_set :: "'a js_array \<Rightarrow> nat \<Rightarrow> 'a \<Rightarrow> 'a js_array" where
  "array_set a n v = \<lparr>elems = (elems a)(n \<mapsto> v), len = max (len a) (Suc n)\<rparr>"

text \<open>
  The matches that the calls \<^verbatim>\<open>iter.exec(contentDisposition)\<close> of the first loop yield, in
  order: each search starts where the match before ended.  A match is the digits, the star
  and the value.
\<close>

function iter_matches :: "bool \<Rightarrow> jsstring \<Rightarrow> ((jsstring \<times> jsstring) \<times> jsstring) list" where
  "iter_matches at_start s =
     (case toParamRegExp_exec attr_filename_cont at_start s of
        None \<Rightarrow> []
      | Some (match, rest) \<Rightarrow> match # iter_matches False rest)"
  by pat_completeness auto
termination
proof -
  have qb: "quoted_body s = (b, r) \<Longrightarrow> length r \<le> length s" for s b r
    by (induction s arbitrary: b rule: quoted_body.induct)
       (auto split: if_splits prod.splits)
  have mv: "match_value s = Some (v, r) \<Longrightarrow> length r < length s" for s v r
    using length_dropWhile_le [of "\<lambda>x. if x = SEMI then False else \<not> is_space x" "tl s"]
    by (auto simp: match_value_def split: list.splits if_splits prod.splits dest!: qb)
  have mc: "match_ci p s = Some r \<Longrightarrow> length r \<le> length s" for p s r
    by (induction p s rule: match_ci.induct) (auto split: if_splits)
  have at: "attr_filename_cont s = Some (c, r) \<Longrightarrow> length r \<le> length s" for s c r
  proof -
    assume a: "attr_filename_cont s = Some (c, r)"
    then obtain s1 where s1: "match_ci (js ''filename*'') s = Some s1"
      by (simp add: attr_filename_cont_def split: option.splits)
    define d where "d = dropWhile is_digit s1"
    have "length d \<le> length s1"
      unfolding d_def by (rule length_dropWhile_le)
    moreover have "(case d of
                      [] \<Rightarrow> Some ((takeWhile is_digit s1, []), [])
                    | x # s3 \<Rightarrow>
                        if x = STAR then Some ((takeWhile is_digit s1, [x]), s3)
                        else Some ((takeWhile is_digit s1, []), x # s3)) = Some (c, r)"
      using a s1 unfolding d_def by (simp add: attr_filename_cont_def split: if_splits)
    then have "length r \<le> length d"
      by (cases d) (auto split: if_splits)
    ultimately show ?thesis using mc [OF s1] by simp
  qed
  have pb: "param_body attr_filename_cont s = Some (x, r) \<Longrightarrow> length r < length s" for s x r
  proof -
    assume a: "param_body attr_filename_cont s = Some (x, r)"
    then obtain c s2 e s4 v where
      1: "attr_filename_cont (dropWhile is_space s) = Some (c, s2)"
      and 2: "dropWhile is_space s2 = e # s4"
      and 3: "match_value (dropWhile is_space s4) = Some (v, r)"
      by (auto simp: param_body_def split: option.splits list.splits if_splits)
    have "length (dropWhile is_space s) \<le> length s" by (rule length_dropWhile_le)
    moreover have "length (dropWhile is_space s2) \<le> length s2" by (rule length_dropWhile_le)
    moreover have "length (dropWhile is_space s4) \<le> length s4" by (rule length_dropWhile_le)
    ultimately show ?thesis using at [OF 1] 2 mv [OF 3] by simp
  qed
  have pa: "param_at attr_filename_cont b s = Some (x, r) \<Longrightarrow> length r < length s" for b s x r
    by (auto simp: param_at_def split: option.splits list.splits if_splits dest!: pb)
  have pe: "toParamRegExp_exec attr_filename_cont b s = Some (x, r) \<Longrightarrow> length r < length s" for b s x r
  proof (induction s arbitrary: b)
    case Nil
    then show ?case using pa [of b "[]" x r] by simp
  next
    case (Cons a s)
    show ?case
    proof (cases "param_at attr_filename_cont b (a # s)")
      case None
      with Cons.prems have "toParamRegExp_exec attr_filename_cont False s = Some (x, r)" by simp
      from Cons.IH [OF this] show ?thesis by simp
    next
      case (Some y)
      with Cons.prems have "param_at attr_filename_cont b (a # s) = Some (x, r)" by simp
      from pa [OF this] show ?thesis .
    qed
  qed
  show ?thesis
    apply (relation "measure (\<lambda>(at_start, s). length s)")
     apply simp
    apply (clarsimp dest!: pe)
    done
qed

text \<open>
  The body of the first loop, on the matches in order.  A second index 0 leaves the loop
  (\<^verbatim>\<open>break\<close>); any other index seen before is skipped (\<^verbatim>\<open>continue\<close>).
\<close>

fun collect_matches ::
  "((jsstring \<times> jsstring) \<times> jsstring) list \<Rightarrow> (jsstring \<times> jsstring) js_array
     \<Rightarrow> (jsstring \<times> jsstring) js_array" where
  "collect_matches [] matches = matches"
| "collect_matches (((n, quot), part) # rest) matches =
     (if elems matches (parseInt10 n) \<noteq> None then
        (if parseInt10 n = 0 then matches else collect_matches rest matches)
      else collect_matches rest (array_set matches (parseInt10 n) (quot, part)))"

text \<open>One part of the second loop: unquoted, and unescaped and decoded when marked.\<close>

definition decode_part ::
  "env \<Rightarrow> nat \<Rightarrow> jsstring \<Rightarrow> jsstring \<Rightarrow> bool \<Rightarrow> js_error + (jsstring \<times> bool)" where
  "decode_part env n quot part needsEncodingFixup =
     (if quot \<noteq> [] then
        (if n = 0 then rfc5987decode env (unescape (rfc2616unquote part)) needsEncodingFixup
         else Inr (unescape (rfc2616unquote part), needsEncodingFixup))
      else Inr (rfc2616unquote part, needsEncodingFixup))"

text \<open>The second loop, from index \<open>n\<close> on: the parts pushed, up to the first hole.\<close>

function build_parts ::
  "env \<Rightarrow> (jsstring \<times> jsstring) js_array \<Rightarrow> nat \<Rightarrow> bool \<Rightarrow> js_error + (jsstring list \<times> bool)" where
  "build_parts env matches n flag =
     (if n < len matches then
        (case elems matches n of
           None \<Rightarrow> Inr ([], flag)
         | Some (quot, part) \<Rightarrow>
             (case decode_part env n quot part flag of
                Inl e \<Rightarrow> Inl e
              | Inr (part1, flag1) \<Rightarrow>
                  (case build_parts env matches (Suc n) flag1 of
                     Inl e \<Rightarrow> Inl e
                   | Inr (parts, flag2) \<Rightarrow> Inr (part1 # parts, flag2))))
      else Inr ([], flag))"
  by pat_completeness auto
termination
  by (relation "measure (\<lambda>(env, matches, n, flag). len matches - n)") auto

definition rfc2231getparam :: "env \<Rightarrow> jsstring \<Rightarrow> bool \<Rightarrow> js_error + (jsstring \<times> bool)" where
  "rfc2231getparam env contentDisposition needsEncodingFixup =
     (case build_parts env (collect_matches (iter_matches True contentDisposition) empty_array)
             0 needsEncodingFixup of
        Inl e \<Rightarrow> Inl e
      | Inr (parts, flag) \<Rightarrow> Inr (concat parts, flag))"

subsection \<open>The body of getFilenameFromContentDispositionHeader\<close>

text \<open>
  The last two steps of each of the three branches:
  \<^verbatim>\<open>filename = rfc2047decode(...); return fixupEncoding(filename);\<close>
\<close>

definition decode_and_fixup :: "env \<Rightarrow> jsstring \<Rightarrow> bool \<Rightarrow> js_error + jsstring" where
  "decode_and_fixup env value needsEncodingFixup =
     (case rfc2047decode env value needsEncodingFixup of
        Inl e \<Rightarrow> Inl e
      | Inr (filename, flag) \<Rightarrow>
          (case fixupEncoding env filename flag of
             Inl e \<Rightarrow> Inl e
           | Inr (fixed, flag1) \<Rightarrow> Inr fixed))"

definition getFilenameFromContentDispositionHeader :: "env \<Rightarrow> jsstring \<Rightarrow> js_error + jsstring" where
  "getFilenameFromContentDispositionHeader env contentDisposition =
     (case toParamRegExp_exec attr_filename_star True contentDisposition of
        Some ((u, tmp), rest) \<Rightarrow>
          (case rfc5987decode env (unescape (rfc2616unquote tmp)) True of
             Inl e \<Rightarrow> Inl e
           | Inr (filename, flag) \<Rightarrow> decode_and_fixup env filename flag)
      | None \<Rightarrow>
          (case rfc2231getparam env contentDisposition True of
             Inl e \<Rightarrow> Inl e
           | Inr (tmp, flag) \<Rightarrow>
               if tmp \<noteq> [] then decode_and_fixup env tmp flag
               else
                 (case toParamRegExp_exec attr_filename True contentDisposition of
                    Some ((u, tmp1), rest) \<Rightarrow> decode_and_fixup env (rfc2616unquote tmp1) flag
                  | None \<Rightarrow> Inr [])))"

section \<open>extractFilenameFromHeader\<close>

text \<open>\<^verbatim>\<open>/\.pdf$/i.test(filename)\<close>\<close>

definition test_pdf :: "jsstring \<Rightarrow> bool" where
  "test_pdf filename =
     (map canonicalize (drop (length filename - 4) filename) = js ''.PDF'')"

text \<open>The argument is a string, or missing (\<open>None\<close>); the result is a string or \<^verbatim>\<open>null\<close>.\<close>

definition extractFilenameFromHeader :: "env \<Rightarrow> jsstring option \<Rightarrow> js_error + jsstring option" where
  "extractFilenameFromHeader env contentDisposition =
     (case contentDisposition of
        None \<Rightarrow> Inr None
      | Some header \<Rightarrow>
          if header \<noteq> [] then
            (case getFilenameFromContentDispositionHeader env header of
               Inl e \<Rightarrow> Inl e
             | Inr filename \<Rightarrow> if test_pdf filename then Inr (Some filename) else Inr None)
          else Inr None)"

section \<open>A platform with a decoder for UTF-8\<close>

text \<open>
  A platform whose \<^verbatim>\<open>TextDecoder\<close> knows UTF-8 (under the labels \<^verbatim>\<open>utf-8\<close> and
  \<^verbatim>\<open>utf8\<close>) and no other encoding, and decodes it as the Encoding Standard says: a
  leading byte order mark EF BB BF is dropped, and with \<^verbatim>\<open>fatal\<close> an invalid sequence
  throws.  It has no \<^verbatim>\<open>atob\<close>.
\<close>

definition utf8_env :: env where
  "utf8_env =
     \<lparr>TextDecoder_decode =
        (\<lambda>label bytes.
           if test_utf8 label then
             (case decodeURIComponent
                     (escape (map ucast
                        (if take 3 bytes = [0xEF, 0xBB, 0xBF] then drop 3 bytes else bytes))) of
                Inl e \<Rightarrow> Inl TypeError
              | Inr decoded \<Rightarrow> Inr decoded)
           else Inl RangeError),
      atob = (\<lambda>text. Inl ReferenceError)\<rparr>"

section \<open>Notions of the specification\<close>

text \<open>
  A file name that ends in \<^verbatim>\<open>.pdf\<close>, in any mix of upper and lower case: its last four
  characters are one of the eight spellings.
\<close>

definition pdf_suffixes :: "jsstring list" where
  "pdf_suffixes =
     map js [''.pdf'', ''.pdF'', ''.pDf'', ''.pDF'', ''.Pdf'', ''.PdF'', ''.PDf'', ''.PDF'']"

definition ends_in_pdf :: "jsstring \<Rightarrow> bool" where
  "ends_in_pdf filename = (drop (length filename - 4) filename \<in> set pdf_suffixes)"

text \<open>
  A charset label that is \<^verbatim>\<open>utf8\<close> or \<^verbatim>\<open>utf-8\<close>, in any mix of upper and lower case.
\<close>

definition utf8_labels :: "jsstring list" where
  "utf8_labels =
     [[u, t, f, 0x38]. u \<leftarrow> js ''uU'', t \<leftarrow> js ''tT'', f \<leftarrow> js ''fF'']
     @ [[u, t, f, MINUS, 0x38]. u \<leftarrow> js ''uU'', t \<leftarrow> js ''tT'', f \<leftarrow> js ''fF'']"

text \<open>The index of a match of the continuation pattern.\<close>

definition part_index :: "(jsstring \<times> jsstring) \<times> jsstring \<Rightarrow> nat" where
  "part_index m = parseInt10 (fst (fst m))"

text \<open>The two loops of \<^verbatim>\<open>rfc2231getparam\<close> on a given list of matches.\<close>

definition reassemble ::
  "env \<Rightarrow> ((jsstring \<times> jsstring) \<times> jsstring) list \<Rightarrow> bool \<Rightarrow> js_error + (jsstring \<times> bool)" where
  "reassemble env ms flag =
     (case build_parts env (collect_matches ms empty_array) 0 flag of
        Inl e \<Rightarrow> Inl e
      | Inr (parts, flag1) \<Rightarrow> Inr (concat parts, flag1))"





section \<open>Evaluation and totality\<close>

text \<open>
  The two functions with a single recursive equation are unfolded on demand only.
\<close>

declare build_parts.simps [simp del] iter_matches.simps [simp del]

lemma continuation_octets_numeral [simp]:
  "continuation_octets (numeral k) s = continuation_octets (Suc (pred_numeral k)) s"
  by (simp add: numeral_eq_Suc)

text \<open>The definitions that the evaluation of a concrete header unfolds.\<close>

lemmas eval_defs =
  js_def is_space_def is_digit_def is_lower_def is_upper_def canonicalize_def is_hex_def
  hexval_def is_word_or_dash_def is_line_terminator_def match_value_def param_body_def
  param_at_def attr_filename_def attr_filename_star_def attr_filename_cont_def bare_env_def
  utf8_env_def
  hex2_def hex4_def hexdigit_def escape_unit_def escape_def leading_ones_def
  utf8_code_point_def utf16_encoding_def parseInt10_def test_bytes_def test_utf8_def
  textdecode_def test_high_def fixupEncoding_def rfc2616unquote_def rfc5987decode_def
  match_encoded_word_def decode_word_def test_control_or_high_def rfc2047decode_def
  empty_array_def array_set_def decode_part_def rfc2231getparam_def decode_and_fixup_def
  getFilenameFromContentDispositionHeader_def test_pdf_def extractFilenameFromHeader_def
  Let_def build_parts.simps iter_matches.simps

text \<open>
  Every function of the source returns a value: each exception that a built-in function
  throws is caught where it is thrown.
\<close>

lemma textdecode_returns: "\<exists>v' flag'. textdecode env encoding v flag = Inr (v', flag')"
  by (auto simp: textdecode_def split: sum.split)

lemma rfc5987decode_returns: "\<exists>v' flag'. rfc5987decode env v flag = Inr (v', flag')"
  by (auto simp: rfc5987decode_def Let_def textdecode_returns)

lemma decode_word_returns:
  "\<exists>v' flag'. decode_word env charset encoding t flag = Inr (v', flag')"
  by (auto simp: decode_word_def textdecode_returns)

lemma replace_encoded_words_returns:
  "\<exists>v' flag'. replace_encoded_words env s flag = Inr (v', flag')"
proof (induction env s flag rule: replace_encoded_words.induct)
  case (1 env flag)
  show ?case by simp
next
  case (2 env c cs flag)
  show ?case
  proof (cases "match_encoded_word (c # cs)")
    case None
    with 2(1) show ?thesis by (auto split: prod.split)
  next
    case (Some m)
    obtain charset encoding t rest where m: "m = ((charset, encoding, t), rest)"
      by (cases m) auto
    obtain w flag1 where w: "decode_word env charset encoding t flag = Inr (w, flag1)"
      using decode_word_returns [of env charset encoding t flag] by auto
    from 2(2) [OF Some m [symmetric] refl refl w refl]
    obtain r flag2 where "replace_encoded_words env rest flag1 = Inr (r, flag2)" by auto
    with Some m w show ?thesis by (auto split: prod.split)
  qed
qed

lemma rfc2047decode_returns: "\<exists>v' flag'. rfc2047decode env v flag = Inr (v', flag')"
  by (auto simp: rfc2047decode_def replace_encoded_words_returns)

lemma fixupEncoding_returns: "\<exists>v' flag'. fixupEncoding env v flag = Inr (v', flag')"
proof -
  obtain v1 f1 where "textdecode env (js ''utf-8'') v flag = Inr (v1, f1)"
    using textdecode_returns [of env "js ''utf-8''" v flag] by auto
  then show ?thesis
    by (auto simp: fixupEncoding_def textdecode_returns)
qed

lemma decode_part_returns:
  "\<exists>v' flag'. decode_part env n quot part flag = Inr (v', flag')"
  by (auto simp: decode_part_def rfc5987decode_returns)

lemma build_parts_returns:
  "\<exists>parts flag'. build_parts env matches n flag = Inr (parts, flag')"
proof (induction env matches n flag rule: build_parts.induct)
  case (1 env matches n flag)
  show ?case
  proof (cases "n < len matches")
    case False
    then show ?thesis by (subst build_parts.simps) simp
  next
    case True
    show ?thesis
    proof (cases "elems matches n")
      case None
      with True show ?thesis by (subst build_parts.simps) simp
    next
      case (Some qp)
      obtain quot part where qp: "qp = (quot, part)" by (cases qp)
      obtain part1 flag1 where d: "decode_part env n quot part flag = Inr (part1, flag1)"
        using decode_part_returns [of env n quot part flag] by auto
      from 1 [OF True Some qp [symmetric] d refl]
      obtain r flag2 where "build_parts env matches (Suc n) flag1 = Inr (r, flag2)" by auto
      with True Some qp d show ?thesis
        by (subst build_parts.simps) (auto split: prod.split)
    qed
  qed
qed

lemma rfc2231getparam_returns: "\<exists>v' flag'. rfc2231getparam env h flag = Inr (v', flag')"
proof -
  obtain parts flag' where
    "build_parts env (collect_matches (iter_matches True h) empty_array) 0 flag = Inr (parts, flag')"
    using build_parts_returns by blast
  then show ?thesis by (simp add: rfc2231getparam_def)
qed

lemma decode_and_fixup_returns: "\<exists>r. decode_and_fixup env v flag = Inr r"
proof -
  obtain v1 f1 where 1: "rfc2047decode env v flag = Inr (v1, f1)"
    using rfc2047decode_returns [of env v flag] by auto
  obtain v2 f2 where "fixupEncoding env v1 f1 = Inr (v2, f2)"
    using fixupEncoding_returns [of env v1 f1] by auto
  with 1 show ?thesis by (simp add: decode_and_fixup_def)
qed

lemma getFilename_returns: "\<exists>r. getFilenameFromContentDispositionHeader env h = Inr r"
proof (cases "toParamRegExp_exec attr_filename_star True h")
  case (Some m)
  obtain u tmp rest where m: "m = ((u, tmp), rest)" by (cases m) auto
  obtain v f where "rfc5987decode env (unescape (rfc2616unquote tmp)) True = Inr (v, f)"
    using rfc5987decode_returns [of env "unescape (rfc2616unquote tmp)" True] by auto
  with Some m show ?thesis
    by (simp add: getFilenameFromContentDispositionHeader_def decode_and_fixup_returns)
next
  case None
  obtain t f where "rfc2231getparam env h True = Inr (t, f)"
    using rfc2231getparam_returns [of env h True] by auto
  with None show ?thesis
    by (auto simp: getFilenameFromContentDispositionHeader_def decode_and_fixup_returns
             split: option.split)
qed

text \<open>The two tests with the flag \<^verbatim>\<open>i\<close>, in the words of the specification.\<close>

lemma canonicalize_eq_iff:
  "canonicalize c = u \<longleftrightarrow> (if is_lower c then c = u + 0x20 else c = u)"
  by (auto simp: canonicalize_def diff_eq_eq)

lemma canonicalize_PDF:
  "canonicalize c = 0x2E \<longleftrightarrow> c = 0x2E"
  "canonicalize c = 0x50 \<longleftrightarrow> c = 0x70 \<or> c = 0x50"
  "canonicalize c = 0x44 \<longleftrightarrow> c = 0x64 \<or> c = 0x44"
  "canonicalize c = 0x46 \<longleftrightarrow> c = 0x66 \<or> c = 0x46"
  by (auto simp: canonicalize_eq_iff is_lower_def)

lemma test_pdf_iff: "test_pdf f \<longleftrightarrow> ends_in_pdf f"
proof
  assume "test_pdf f"
  then have "map canonicalize (drop (length f - 4) f) = [0x2E, 0x50, 0x44, 0x46]"
    by (simp add: test_pdf_def js_def)
  then obtain a p d e where "drop (length f - 4) f = [a, p, d, e]"
    and "canonicalize a = 0x2E" "canonicalize p = 0x50" "canonicalize d = 0x44"
      "canonicalize e = 0x46"
    by (auto simp: map_eq_Cons_conv)
  then show "ends_in_pdf f"
    by (auto simp: ends_in_pdf_def pdf_suffixes_def js_def canonicalize_PDF)
next
  assume "ends_in_pdf f"
  then show "test_pdf f"
    by (auto simp: ends_in_pdf_def pdf_suffixes_def test_pdf_def js_def canonicalize_def
        is_lower_def)
qed

lemma canonicalize_UTF8:
  "canonicalize c = 0x55 \<longleftrightarrow> c = 0x75 \<or> c = 0x55"
  "canonicalize c = 0x54 \<longleftrightarrow> c = 0x74 \<or> c = 0x54"
  "canonicalize c = 0x46 \<longleftrightarrow> c = 0x66 \<or> c = 0x46"
  "canonicalize c = 0x38 \<longleftrightarrow> c = 0x38"
  "canonicalize c = 0x2D \<longleftrightarrow> c = 0x2D"
  by (auto simp: canonicalize_eq_iff is_lower_def)

lemma test_utf8_iff: "test_utf8 encoding \<longleftrightarrow> encoding \<in> set utf8_labels"
proof
  assume "test_utf8 encoding"
  then show "encoding \<in> set utf8_labels"
    by (auto simp: test_utf8_def utf8_labels_def js_def map_eq_Cons_conv canonicalize_UTF8)
next
  assume "encoding \<in> set utf8_labels"
  then show "test_utf8 encoding"
    by (auto simp: test_utf8_def utf8_labels_def js_def canonicalize_def is_lower_def)
qed

text \<open>The first loop of \<^verbatim>\<open>rfc2231getparam\<close>: indices stay set, and a second index 0 ends it.\<close>

lemma rfc2231getparam_reassemble:
  "rfc2231getparam env h flag = reassemble env (iter_matches True h) flag"
  by (simp add: rfc2231getparam_def reassemble_def)

lemma collect_matches_keeps:
  "elems a n \<noteq> None \<Longrightarrow> elems (collect_matches ms a) n \<noteq> None"
proof (induction ms arbitrary: a)
  case Nil
  then show ?case by simp
next
  case (Cons m ms)
  obtain d q p where m: "m = ((d, q), p)" by (cases m) auto
  show ?case
    using Cons.prems Cons.IH [of a] Cons.IH [of "array_set a (parseInt10 d) (q, p)"]
    by (simp add: m array_set_def)
qed

lemma collect_matches_sets_zero:
  "\<exists>x\<in>set ms. part_index x = 0 \<Longrightarrow> elems (collect_matches ms a) 0 \<noteq> None"
proof (induction ms arbitrary: a)
  case Nil
  then show ?case by simp
next
  case (Cons m ms)
  obtain d q p where m: "m = ((d, q), p)" by (cases m) auto
  show ?case
  proof (cases "elems a 0 \<noteq> None")
    case True
    then show ?thesis by (rule collect_matches_keeps)
  next
    case False
    show ?thesis
    proof (cases "parseInt10 d = 0")
      case True
      have "elems (array_set a 0 (q, p)) 0 \<noteq> None" by (simp add: array_set_def)
      then have "elems (collect_matches ms (array_set a 0 (q, p))) 0 \<noteq> None"
        by (rule collect_matches_keeps)
      with False True show ?thesis by (simp add: m)
    next
      case nz: False
      with Cons.prems have "\<exists>x\<in>set ms. part_index x = 0"
        by (simp add: m part_index_def)
      from Cons.IH [OF this] nz show ?thesis
        by (simp add: m)
    qed
  qed
qed

lemma collect_matches_stops:
  "elems (collect_matches pre a) 0 \<noteq> None \<Longrightarrow> part_index m = 0 \<Longrightarrow>
     collect_matches (pre @ m # post) a = collect_matches pre a"
proof (induction pre arbitrary: a)
  case Nil
  obtain d q p where m: "m = ((d, q), p)" by (cases m) auto
  from Nil show ?case by (simp add: m part_index_def)
next
  case (Cons x pre)
  obtain d q p where x: "x = ((d, q), p)" by (cases x) auto
  show ?case
  proof (cases "elems a (parseInt10 d) \<noteq> None")
    case True
    show ?thesis
    proof (cases "parseInt10 d = 0")
      case z: True
      with True show ?thesis by (simp add: x)
    next
      case nz: False
      from Cons.prems True nz have "elems (collect_matches pre a) 0 \<noteq> None"
        by (simp add: x)
      from Cons.IH [OF this Cons.prems(2)] True nz show ?thesis
        by (simp add: x)
    qed
  next
    case False
    from Cons.prems False
    have "elems (collect_matches pre (array_set a (parseInt10 d) (q, p))) 0 \<noteq> None"
      by (simp add: x)
    from Cons.IH [OF this Cons.prems(2)] False show ?thesis
      by (simp add: x)
  qed
qed









section \<open>The claims\<close>

text \<open>
  C1.  The public operation returns \<^verbatim>\<open>null\<close> or a file name that ends in \<^verbatim>\<open>.pdf\<close>
  in any mix of cases.  It returns \<^verbatim>\<open>null\<close> for a missing or empty argument, and
  \<^verbatim>\<open>null\<close> when the file name extracted from the header does not end in \<^verbatim>\<open>.pdf\<close>.
  A file name that is returned is the one extracted from the header.
\<close>

theorem extractFilenameFromHeader_pdf_or_null:
  "(extractFilenameFromHeader env cd = Inr None
      \<or> (\<exists>f. extractFilenameFromHeader env cd = Inr (Some f) \<and> ends_in_pdf f))
   \<and> (cd = None \<or> cd = Some [] \<longrightarrow> extractFilenameFromHeader env cd = Inr None)
   \<and> (\<forall>h f. cd = Some h \<and> getFilenameFromContentDispositionHeader env h = Inr f
          \<and> \<not> ends_in_pdf f \<longrightarrow> extractFilenameFromHeader env cd = Inr None)
   \<and> (\<forall>f. extractFilenameFromHeader env cd = Inr (Some f) \<longrightarrow>
          (\<exists>h. cd = Some h \<and> h \<noteq> [] \<and> getFilenameFromContentDispositionHeader env h = Inr f))"
proof (cases cd)
  case None
  then show ?thesis by (simp add: extractFilenameFromHeader_def)
next
  case (Some h)
  obtain f where "getFilenameFromContentDispositionHeader env h = Inr f"
    using getFilename_returns [of env h] by auto
  with Some show ?thesis
    by (auto simp: extractFilenameFromHeader_def test_pdf_iff)
qed

text \<open>
  A missing header, an empty one, \<^verbatim>\<open>filename="notes.txt"\<close> (extracted, then refused) and
  \<^verbatim>\<open>filename="a.PdF"\<close> (returned).
\<close>

theorem extractFilenameFromHeader_pdf_or_null_witness:
  "extractFilenameFromHeader bare_env None = Inr None
   \<and> extractFilenameFromHeader bare_env (Some []) = Inr None
   \<and> getFilenameFromContentDispositionHeader bare_env (js ''filename=\"notes.txt\"'')
       = Inr (js ''notes.txt'')
   \<and> \<not> ends_in_pdf (js ''notes.txt'')
   \<and> extractFilenameFromHeader bare_env (Some (js ''filename=\"notes.txt\"'')) = Inr None
   \<and> extractFilenameFromHeader bare_env (Some (js ''filename=\"a.PdF\"'')) = Inr (Some (js ''a.PdF''))
   \<and> ends_in_pdf (js ''a.PdF'')"
  using extractFilenameFromHeader_pdf_or_null [of bare_env None]
        extractFilenameFromHeader_pdf_or_null [of bare_env "Some []"]
        extractFilenameFromHeader_pdf_or_null [of bare_env "Some (js ''filename=\"notes.txt\"'')"]
        extractFilenameFromHeader_pdf_or_null [of bare_env "Some (js ''filename=\"a.PdF\"'')"]
  by (simp add: eval_defs ends_in_pdf_def pdf_suffixes_def)

text \<open>
  C2.  The three forms are tried in a fixed order.  When the pattern for \<^verbatim>\<open>filename*\<close>
  matches, the result is made from its value, whether or not a continuation or a plain
  \<^verbatim>\<open>filename\<close> is present too.  Otherwise, when the continuation parameters reassemble
  to a value that is not empty, the result is made from it.  Only otherwise the plain form
  is used, and without it the result is the empty string.
\<close>

theorem filename_forms_priority:
  "(\<forall>u v rest. toParamRegExp_exec attr_filename_star True h = Some ((u, v), rest) \<longrightarrow>
      (\<exists>f flag. rfc5987decode env (unescape (rfc2616unquote v)) True = Inr (f, flag)
         \<and> getFilenameFromContentDispositionHeader env h = decode_and_fixup env f flag))
   \<and> (toParamRegExp_exec attr_filename_star True h = None \<longrightarrow>
        (\<forall>t flag. rfc2231getparam env h True = Inr (t, flag) \<longrightarrow>
           (t \<noteq> [] \<longrightarrow>
              getFilenameFromContentDispositionHeader env h = decode_and_fixup env t flag)
           \<and> (t = [] \<longrightarrow>
                (\<forall>u v rest. toParamRegExp_exec attr_filename True h = Some ((u, v), rest) \<longrightarrow>
                   getFilenameFromContentDispositionHeader env h
                     = decode_and_fixup env (rfc2616unquote v) flag)
                \<and> (toParamRegExp_exec attr_filename True h = None \<longrightarrow>
                     getFilenameFromContentDispositionHeader env h = Inr []))))"
proof -
  have "\<exists>f flag. rfc5987decode env (unescape (rfc2616unquote v)) True = Inr (f, flag)" for v
    by (rule rfc5987decode_returns)
  then show ?thesis
    by (fastforce simp: getFilenameFromContentDispositionHeader_def)
qed

text \<open>
  A header with all three forms, one with the plain form before a continuation, one with
  the plain form only, and one without any.
\<close>

theorem filename_forms_priority_witness:
  "toParamRegExp_exec attr_filename True (js ''filename=b.pdf; filename*0=c.pdf; filename*=a.pdf'')
     = Some (((), js ''b.pdf''), js ''; filename*0=c.pdf; filename*=a.pdf'')
   \<and> rfc2231getparam bare_env (js ''filename=b.pdf; filename*0=c.pdf; filename*=a.pdf'') True
     = Inr (js ''c.pdf'', True)
   \<and> getFilenameFromContentDispositionHeader bare_env
        (js ''filename=b.pdf; filename*0=c.pdf; filename*=a.pdf'') = Inr (js ''a.pdf'')
   \<and> toParamRegExp_exec attr_filename True (js ''filename=b.pdf; filename*0=c.pdf'')
     = Some (((), js ''b.pdf''), js ''; filename*0=c.pdf'')
   \<and> getFilenameFromContentDispositionHeader bare_env (js ''filename=b.pdf; filename*0=c.pdf'')
     = Inr (js ''c.pdf'')
   \<and> getFilenameFromContentDispositionHeader bare_env (js ''inline; filename=b.pdf'')
     = Inr (js ''b.pdf'')
   \<and> getFilenameFromContentDispositionHeader bare_env (js ''inline'') = Inr []"
proof -
  let ?h1 = "js ''filename=b.pdf; filename*0=c.pdf; filename*=a.pdf''"
  let ?h2 = "js ''filename=b.pdf; filename*0=c.pdf''"
  let ?h3 = "js ''inline; filename=b.pdf''"
  let ?h4 = "js ''inline''"
  have plain1: "toParamRegExp_exec attr_filename True ?h1
      = Some (((), js ''b.pdf''), js ''; filename*0=c.pdf; filename*=a.pdf'')"
    by (simp add: eval_defs)
  have cont1: "rfc2231getparam bare_env ?h1 True = Inr (js ''c.pdf'', True)"
    by (simp add: eval_defs)
  have star1: "toParamRegExp_exec attr_filename_star True ?h1 = Some (((), js ''a.pdf''), [])"
    by (simp add: eval_defs)
  have dec1: "rfc5987decode bare_env (unescape (rfc2616unquote (js ''a.pdf''))) True
      = Inr (js ''a.pdf'', True)"
    by (simp add: eval_defs)
  have fin_a: "decode_and_fixup bare_env (js ''a.pdf'') True = Inr (js ''a.pdf'')"
    by (simp add: eval_defs)
  have r1: "getFilenameFromContentDispositionHeader bare_env ?h1 = Inr (js ''a.pdf'')"
    using filename_forms_priority [of ?h1 bare_env] star1 dec1 fin_a by auto
  have plain2: "toParamRegExp_exec attr_filename True ?h2 = Some (((), js ''b.pdf''), js ''; filename*0=c.pdf'')"
    by (simp add: eval_defs)
  have star2: "toParamRegExp_exec attr_filename_star True ?h2 = None"
    by (simp add: eval_defs)
  have cont2: "rfc2231getparam bare_env ?h2 True = Inr (js ''c.pdf'', True)"
    by (simp add: eval_defs)
  have ne: "js ''c.pdf'' \<noteq> []"
    by (simp add: js_def)
  have fin_c: "decode_and_fixup bare_env (js ''c.pdf'') True = Inr (js ''c.pdf'')"
    by (simp add: eval_defs)
  have r2: "getFilenameFromContentDispositionHeader bare_env ?h2 = Inr (js ''c.pdf'')"
    using filename_forms_priority [of ?h2 bare_env] star2 cont2 ne fin_c by auto
  have star3: "toParamRegExp_exec attr_filename_star True ?h3 = None"
    by (simp add: eval_defs)
  have cont3: "rfc2231getparam bare_env ?h3 True = Inr ([], True)"
    by (simp add: eval_defs)
  have plain3: "toParamRegExp_exec attr_filename True ?h3 = Some (((), js ''b.pdf''), [])"
    by (simp add: eval_defs)
  have fin_b: "decode_and_fixup bare_env (rfc2616unquote (js ''b.pdf'')) True = Inr (js ''b.pdf'')"
    by (simp add: eval_defs)
  have r3: "getFilenameFromContentDispositionHeader bare_env ?h3 = Inr (js ''b.pdf'')"
    using filename_forms_priority [of ?h3 bare_env] star3 cont3 plain3 fin_b by auto
  have star4: "toParamRegExp_exec attr_filename_star True ?h4 = None"
    by (simp add: eval_defs)
  have cont4: "rfc2231getparam bare_env ?h4 True = Inr ([], True)"
    by (simp add: eval_defs)
  have plain4: "toParamRegExp_exec attr_filename True ?h4 = None"
    by (simp add: eval_defs)
  have r4: "getFilenameFromContentDispositionHeader bare_env ?h4 = Inr []"
    using filename_forms_priority [of ?h4 bare_env] star4 cont4 plain4 by auto
  from plain1 cont1 r1 plain2 r2 r3 r4 show ?thesis by blast
qed

text \<open>
  C3, as stated, fails.  On the branch of \<^verbatim>\<open>filename*\<close> and on the continuation branch
  the steps before \<^verbatim>\<open>fixupEncoding\<close> leave the three bytes E2 82 AC of
  \<^verbatim>\<open>%E2%82%AC.pdf\<close>, with the flag set; the function returns the euro sign, which only
  \<^verbatim>\<open>fixupEncoding\<close> produces.  This holds with and without \<^verbatim>\<open>TextDecoder\<close>.
\<close>

theorem fixupEncoding_skipped_counterexample:
  "toParamRegExp_exec attr_filename_star True (js ''filename*=%E2%82%AC.pdf'')
     = Some (((), js ''%E2%82%AC.pdf''), [])
   \<and> rfc5987decode bare_env (unescape (rfc2616unquote (js ''%E2%82%AC.pdf''))) True
     = Inr ([0xE2, 0x82, 0xAC] @ js ''.pdf'', True)
   \<and> rfc2047decode bare_env ([0xE2, 0x82, 0xAC] @ js ''.pdf'') True
     = Inr ([0xE2, 0x82, 0xAC] @ js ''.pdf'', True)
   \<and> getFilenameFromContentDispositionHeader bare_env (js ''filename*=%E2%82%AC.pdf'')
     = Inr ([0x20AC] @ js ''.pdf'')
   \<and> getFilenameFromContentDispositionHeader utf8_env (js ''filename*=%E2%82%AC.pdf'')
     = Inr ([0x20AC] @ js ''.pdf'')
   \<and> toParamRegExp_exec attr_filename_star True (js ''filename*0*=%E2%82%AC.pdf'') = None
   \<and> rfc2231getparam bare_env (js ''filename*0*=%E2%82%AC.pdf'') True
     = Inr ([0xE2, 0x82, 0xAC] @ js ''.pdf'', True)
   \<and> getFilenameFromContentDispositionHeader bare_env (js ''filename*0*=%E2%82%AC.pdf'')
     = Inr ([0x20AC] @ js ''.pdf'')
   \<and> getFilenameFromContentDispositionHeader utf8_env (js ''filename*0*=%E2%82%AC.pdf'')
     = Inr ([0x20AC] @ js ''.pdf'')"
  by (simp add: eval_defs)

text \<open>
  C3, amended.  \<^verbatim>\<open>fixupEncoding\<close> is the last step of the branch of \<^verbatim>\<open>filename*\<close> and
  of the continuation branch, as it is of the plain branch: the result is what it returns
  for the RFC 2047-decoded value and the flag that the steps before have left.  It returns
  that value unchanged when the flag has been cleared by a charset decode that succeeded,
  or when the value has no character in 0x80-0xFF.
\<close>

theorem fixupEncoding_on_every_branch:
  "(\<forall>u v rest. toParamRegExp_exec attr_filename_star True h = Some ((u, v), rest) \<longrightarrow>
      (\<exists>f flag f2 flag2.
         rfc5987decode env (unescape (rfc2616unquote v)) True = Inr (f, flag)
         \<and> rfc2047decode env f flag = Inr (f2, flag2)
         \<and> getFilenameFromContentDispositionHeader env h
             = map_sum id fst (fixupEncoding env f2 flag2)
         \<and> (\<not> flag2 \<or> (\<forall>c\<in>set f2. c < 0x80 \<or> 0xFF < c) \<longrightarrow>
              getFilenameFromContentDispositionHeader env h = Inr f2)))
   \<and> (toParamRegExp_exec attr_filename_star True h = None \<longrightarrow>
        (\<forall>t flag. rfc2231getparam env h True = Inr (t, flag) \<and> t \<noteq> [] \<longrightarrow>
           (\<exists>f2 flag2.
              rfc2047decode env t flag = Inr (f2, flag2)
              \<and> getFilenameFromContentDispositionHeader env h
                  = map_sum id fst (fixupEncoding env f2 flag2)
              \<and> (\<not> flag2 \<or> (\<forall>c\<in>set f2. c < 0x80 \<or> 0xFF < c) \<longrightarrow>
                   getFilenameFromContentDispositionHeader env h = Inr f2))))"
proof -
  have fx: "decode_and_fixup env v flag = map_sum id fst (fixupEncoding env f2 flag2)"
    if "rfc2047decode env v flag = Inr (f2, flag2)" for v flag f2 flag2
    using that fixupEncoding_returns [of env f2 flag2] by (auto simp: decode_and_fixup_def)
  have idle: "fixupEncoding env f2 flag2 = Inr (f2, flag2)"
    if "\<not> flag2 \<or> (\<forall>c\<in>set f2. c < 0x80 \<or> 0xFF < c)" for f2 flag2
    using that by (auto simp: fixupEncoding_def test_high_def list_ex_iff not_le not_less)
  show ?thesis
  proof (intro conjI allI impI)
    fix u v rest
    assume m: "toParamRegExp_exec attr_filename_star True h = Some ((u, v), rest)"
    obtain f flag where 1: "rfc5987decode env (unescape (rfc2616unquote v)) True = Inr (f, flag)"
      using rfc5987decode_returns by blast
    obtain f2 flag2 where 2: "rfc2047decode env f flag = Inr (f2, flag2)"
      using rfc2047decode_returns by blast
    have 3: "getFilenameFromContentDispositionHeader env h
               = map_sum id fst (fixupEncoding env f2 flag2)"
      using m 1 fx [OF 2] by (simp add: getFilenameFromContentDispositionHeader_def)
    show "\<exists>f flag f2 flag2.
         rfc5987decode env (unescape (rfc2616unquote v)) True = Inr (f, flag)
         \<and> rfc2047decode env f flag = Inr (f2, flag2)
         \<and> getFilenameFromContentDispositionHeader env h
             = map_sum id fst (fixupEncoding env f2 flag2)
         \<and> (\<not> flag2 \<or> (\<forall>c\<in>set f2. c < 0x80 \<or> 0xFF < c) \<longrightarrow>
              getFilenameFromContentDispositionHeader env h = Inr f2)"
      using 1 2 3 idle [of flag2 f2] by auto
  next
    fix t flag
    assume n: "toParamRegExp_exec attr_filename_star True h = None"
      and c: "rfc2231getparam env h True = Inr (t, flag) \<and> t \<noteq> []"
    obtain f2 flag2 where 2: "rfc2047decode env t flag = Inr (f2, flag2)"
      using rfc2047decode_returns by blast
    have 3: "getFilenameFromContentDispositionHeader env h
               = map_sum id fst (fixupEncoding env f2 flag2)"
      using n c fx [OF 2] by (simp add: getFilenameFromContentDispositionHeader_def)
    show "\<exists>f2 flag2.
              rfc2047decode env t flag = Inr (f2, flag2)
              \<and> getFilenameFromContentDispositionHeader env h
                  = map_sum id fst (fixupEncoding env f2 flag2)
              \<and> (\<not> flag2 \<or> (\<forall>c\<in>set f2. c < 0x80 \<or> 0xFF < c) \<longrightarrow>
                   getFilenameFromContentDispositionHeader env h = Inr f2)"
      using 2 3 idle [of flag2 f2] by auto
  qed
qed

text \<open>
  Without a charset the bytes C3 A9 are decoded by \<^verbatim>\<open>fixupEncoding\<close>; after the charset
  UTF-8 has given the characters C3 A9, they are left alone.
\<close>

theorem fixupEncoding_on_every_branch_witness:
  "getFilenameFromContentDispositionHeader utf8_env (js ''filename*=%C3%A9.pdf'')
     = Inr ([0xE9] @ js ''.pdf'')
   \<and> getFilenameFromContentDispositionHeader utf8_env
       (js ''filename*0*=UTF-8'' @ [APOS, APOS] @ js ''%C3%83%C2%A9.pdf'')
     = Inr ([0xC3, 0xA9] @ js ''.pdf'')"
proof -
  let ?h1 = "js ''filename*=%C3%A9.pdf''"
  let ?h2 = "js ''filename*0*=UTF-8'' @ [APOS, APOS] @ js ''%C3%83%C2%A9.pdf''"
  let ?raw = "[0xC3, 0xA9] @ js ''.pdf''"
  have star1: "toParamRegExp_exec attr_filename_star True ?h1 = Some (((), js ''%C3%A9.pdf''), [])"
    by (simp add: eval_defs)
  have dec1: "rfc5987decode utf8_env (unescape (rfc2616unquote (js ''%C3%A9.pdf''))) True
      = Inr (?raw, True)"
    by (simp add: eval_defs)
  have w1: "rfc2047decode utf8_env ?raw True = Inr (?raw, True)"
    by (simp add: eval_defs)
  have fix1: "fixupEncoding utf8_env ?raw True = Inr ([0xE9] @ js ''.pdf'', False)"
    by (simp add: eval_defs)
  have r1: "getFilenameFromContentDispositionHeader utf8_env ?h1 = Inr ([0xE9] @ js ''.pdf'')"
    using fixupEncoding_on_every_branch [of ?h1 utf8_env] star1 dec1 w1 fix1 by auto
  have star2: "toParamRegExp_exec attr_filename_star True ?h2 = None"
    by (simp add: eval_defs)
  have cont2: "rfc2231getparam utf8_env ?h2 True = Inr (?raw, False)"
    by (simp add: eval_defs)
  have ne: "?raw \<noteq> []"
    by simp
  have w2: "rfc2047decode utf8_env ?raw False = Inr (?raw, False)"
    by (simp add: eval_defs)
  have r2: "getFilenameFromContentDispositionHeader utf8_env ?h2 = Inr ?raw"
    using fixupEncoding_on_every_branch [of ?h2 utf8_env] star2 cont2 ne w2 by auto
  from r1 r2 show ?thesis by blast
qed

text \<open>
  C4, as stated, fails.  In \<^verbatim>\<open>filename*0=a.pdf; filename*0=b.pdf; filename=c.pdf\<close> the
  index 0 appears twice and a plain \<^verbatim>\<open>filename\<close> follows, but the continuation value is
  not abandoned: the function returns \<^verbatim>\<open>a.pdf\<close>, the part before the second index 0.
\<close>

theorem duplicate_zero_counterexample:
  "iter_matches True (js ''filename*0=a.pdf; filename*0=b.pdf; filename=c.pdf'')
     = [((js ''0'', []), js ''a.pdf''), ((js ''0'', []), js ''b.pdf'')]
   \<and> toParamRegExp_exec attr_filename_star True (js ''filename*0=a.pdf; filename*0=b.pdf; filename=c.pdf'')
     = None
   \<and> toParamRegExp_exec attr_filename True (js ''filename*0=a.pdf; filename*0=b.pdf; filename=c.pdf'')
     = Some (((), js ''c.pdf''), [])
   \<and> rfc2231getparam bare_env (js ''filename*0=a.pdf; filename*0=b.pdf; filename=c.pdf'') True
     = Inr (js ''a.pdf'', True)
   \<and> getFilenameFromContentDispositionHeader bare_env
       (js ''filename*0=a.pdf; filename*0=b.pdf; filename=c.pdf'')
     = Inr (js ''a.pdf'')"
  by (simp add: eval_defs)

text \<open>
  C4, amended.  The second occurrence of the index 0 ends the scan of the continuation
  parameters, as the comment in the source says: "Ignore anything after the invalid second
  filename*0".  The parameters before it are reassembled as usual, the duplicate and all
  that follow it are ignored, and the value reassembled, when it is not empty, is the one
  the function goes on with.
\<close>

theorem duplicate_zero_stops_scan:
  assumes "iter_matches True h = pre @ m # post"
    and "part_index m = 0"
    and "\<exists>x\<in>set pre. part_index x = 0"
  shows "rfc2231getparam env h flag = reassemble env pre flag
         \<and> (toParamRegExp_exec attr_filename_star True h = None \<longrightarrow>
              (\<forall>t flag1. reassemble env pre True = Inr (t, flag1) \<and> t \<noteq> [] \<longrightarrow>
                 getFilenameFromContentDispositionHeader env h = decode_and_fixup env t flag1))"
proof -
  have z: "elems (collect_matches pre empty_array) 0 \<noteq> None"
    using assms(3) by (rule collect_matches_sets_zero)
  have "collect_matches (iter_matches True h) empty_array = collect_matches pre empty_array"
    unfolding assms(1) using z assms(2) by (rule collect_matches_stops)
  then have r: "rfc2231getparam env h f = reassemble env pre f" for f
    by (simp add: rfc2231getparam_def reassemble_def)
  then show ?thesis
    by (auto simp: getFilenameFromContentDispositionHeader_def)
qed

text \<open>
  Parts 0 and 1, a second part 0, and a part 2 that would continue the value but comes too
  late.
\<close>

theorem duplicate_zero_stops_scan_witness:
  "iter_matches True (js ''filename*0=a; filename*1=.pdf; filename*0=b; filename*2=c'')
     = [((js ''0'', []), js ''a''), ((js ''1'', []), js ''.pdf'')]
       @ ((js ''0'', []), js ''b'') # [((js ''2'', []), js ''c'')]
   \<and> reassemble bare_env [((js ''0'', []), js ''a''), ((js ''1'', []), js ''.pdf'')] True
     = Inr (js ''a.pdf'', True)
   \<and> rfc2231getparam bare_env (js ''filename*0=a; filename*1=.pdf; filename*0=b; filename*2=c'')
       True
     = Inr (js ''a.pdf'', True)
   \<and> getFilenameFromContentDispositionHeader bare_env
       (js ''filename*0=a; filename*1=.pdf; filename*0=b; filename*2=c'')
     = Inr (js ''a.pdf'')"
proof -
  let ?h = "js ''filename*0=a; filename*1=.pdf; filename*0=b; filename*2=c''"
  let ?pre = "[((js ''0'', []), js ''a''), ((js ''1'', []), js ''.pdf'')]"
  let ?m = "((js ''0'', []), js ''b'')"
  let ?post = "[((js ''2'', []), js ''c'')]"
  have ms: "iter_matches True ?h = ?pre @ ?m # ?post"
    by (simp add: eval_defs)
  have dup: "part_index ?m = 0"
    by (simp add: part_index_def parseInt10_def js_def)
  have first: "\<exists>x\<in>set ?pre. part_index x = 0"
    by (simp add: part_index_def parseInt10_def js_def)
  have pre: "reassemble bare_env ?pre True = Inr (js ''a.pdf'', True)"
    by (simp add: reassemble_def eval_defs)
  have star: "toParamRegExp_exec attr_filename_star True ?h = None"
    by (simp add: eval_defs)
  have ne: "js ''a.pdf'' \<noteq> []"
    by (simp add: js_def)
  have fin: "decode_and_fixup bare_env (js ''a.pdf'') True = Inr (js ''a.pdf'')"
    by (simp add: eval_defs)
  from duplicate_zero_stops_scan [OF ms dup first, of bare_env True] pre star ne fin ms
  show ?thesis by auto
qed



text \<open>
  C6.  \<^verbatim>\<open>textdecode\<close> returns the value and the flag unchanged when the label is empty, and
  when a character of the value is above 255.  Otherwise, for a value that is not empty:
  when the platform's decoder succeeds, the decoded text is returned and the flag is
  cleared; when it throws and the label is UTF-8 (with or without the hyphen, in any case),
  the recovery \<^verbatim>\<open>decodeURIComponent(escape(value))\<close> is tried, which clears the flag when it
  succeeds; when everything fails the value and the flag are returned unchanged.
\<close>

theorem textdecode_cases:
  "textdecode env [] v flag = Inr (v, flag)
   \<and> ((\<exists>c\<in>set v. 0xFF < c) \<longrightarrow> textdecode env encoding v flag = Inr (v, flag))
   \<and> (encoding \<noteq> [] \<and> v \<noteq> [] \<and> (\<forall>c\<in>set v. c \<le> 0xFF) \<longrightarrow>
        (\<forall>decoded. TextDecoder_decode env encoding (map ucast v) = Inr decoded \<longrightarrow>
           textdecode env encoding v flag = Inr (decoded, False))
        \<and> (\<forall>e. TextDecoder_decode env encoding (map ucast v) = Inl e \<longrightarrow>
             (encoding \<in> set utf8_labels \<longrightarrow>
                (\<forall>decoded. decodeURIComponent (escape v) = Inr decoded \<longrightarrow>
                   textdecode env encoding v flag = Inr (decoded, False))
                \<and> (\<forall>err. decodeURIComponent (escape v) = Inl err \<longrightarrow>
                     textdecode env encoding v flag = Inr (v, flag)))
             \<and> (encoding \<notin> set utf8_labels \<longrightarrow> textdecode env encoding v flag = Inr (v, flag))))"
proof -
  have 1: "(\<exists>c\<in>set v. 0xFF < c) \<Longrightarrow> \<not> test_bytes v"
    by (auto simp: test_bytes_def list_all_iff not_le)
  have 2: "v \<noteq> [] \<and> (\<forall>c\<in>set v. c \<le> 0xFF) \<Longrightarrow> test_bytes v"
    by (simp add: test_bytes_def list_all_iff)
  show ?thesis
    using 1 2 unfolding textdecode_def test_utf8_iff
    by (cases "TextDecoder_decode env encoding (map ucast v)";
        cases "decodeURIComponent (escape v)") simp_all
qed

text \<open>
  With a decoder for UTF-8 and without any: the empty label, a character above 255, the
  empty value, a decoded euro sign, the recovery of the euro sign, a byte that is not UTF-8,
  and labels that are not known.
\<close>

theorem textdecode_cases_witness:
  "textdecode utf8_env [] [0xE2, 0x82, 0xAC] True = Inr ([0xE2, 0x82, 0xAC], True)
   \<and> textdecode utf8_env (js ''utf-8'') [0xE2, 0x20AC] True = Inr ([0xE2, 0x20AC], True)
   \<and> textdecode utf8_env (js ''utf-8'') [] True = Inr ([], True)
   \<and> textdecode utf8_env (js ''utf-8'') [0xE2, 0x82, 0xAC] True = Inr ([0x20AC], False)
   \<and> textdecode bare_env (js ''Utf8'') [0xE2, 0x82, 0xAC] True = Inr ([0x20AC], False)
   \<and> textdecode bare_env (js ''UTF-8'') [0xE9] True = Inr ([0xE9], True)
   \<and> textdecode bare_env (js ''utf_8'') [0xE2, 0x82, 0xAC] True = Inr ([0xE2, 0x82, 0xAC], True)
   \<and> textdecode utf8_env (js ''iso-8859-1'') [0xE9] True = Inr ([0xE9], True)"
  using textdecode_cases [of utf8_env "[0xE2, 0x82, 0xAC]" True "[]"]
        textdecode_cases [of utf8_env "[0xE2, 0x20AC]" True "js ''utf-8''"]
        textdecode_cases [of utf8_env "[0xE2, 0x82, 0xAC]" True "js ''utf-8''"]
        textdecode_cases [of bare_env "[0xE2, 0x82, 0xAC]" True "js ''Utf8''"]
        textdecode_cases [of bare_env "[0xE9]" True "js ''UTF-8''"]
        textdecode_cases [of bare_env "[0xE2, 0x82, 0xAC]" True "js ''utf_8''"]
  by (simp add: eval_defs)

text \<open>
  C7.  For every string given to the public operation (and for a missing argument), and
  whatever the platform functions do, no exception reaches the caller: the call returns a
  file name or \<^verbatim>\<open>null\<close>.
\<close>

theorem extractFilenameFromHeader_never_throws:
  "\<exists>r. extractFilenameFromHeader env contentDisposition = Inr r"
proof (cases contentDisposition)
  case None
  then show ?thesis by (simp add: extractFilenameFromHeader_def)
next
  case (Some header)
  obtain filename where "getFilenameFromContentDispositionHeader env header = Inr filename"
    using getFilename_returns [of env header] by auto
  with Some show ?thesis by (simp add: extractFilenameFromHeader_def)
qed

text \<open>
  On a platform with neither \<^verbatim>\<open>TextDecoder\<close> nor \<^verbatim>\<open>atob\<close>, the header
  \<^verbatim>\<open>filename*=bogus''a%FF.pdf\<close> names an unknown charset and holds a byte that is not
  UTF-8; the value comes back undecoded.  A quoted string without its closing quote that
  holds an encoded word with an unknown charset and text that is not base64 gives the text
  as it is.  A continuation without a usable part 0 gives \<^verbatim>\<open>null\<close>.
\<close>

theorem extractFilenameFromHeader_never_throws_witness:
  "extractFilenameFromHeader bare_env
       (Some (js ''filename*=bogus'' @ [APOS, APOS] @ js ''a%FF.pdf''))
     = Inr (Some [0x61, 0xFF, 0x2E, 0x70, 0x64, 0x66])
   \<and> extractFilenameFromHeader utf8_env (Some (js ''filename=\"=?x?B?!!!?=.pdf''))
     = Inr (Some (js ''!!!.pdf''))
   \<and> extractFilenameFromHeader utf8_env (Some (js ''filename*1=a.pdf; filename*0=\"''))
     = Inr None"
  using extractFilenameFromHeader_never_throws
          [of bare_env "Some (js ''filename*=bogus'' @ [APOS, APOS] @ js ''a%FF.pdf'')"]
        extractFilenameFromHeader_never_throws
          [of utf8_env "Some (js ''filename=\"=?x?B?!!!?=.pdf'')"]
        extractFilenameFromHeader_never_throws
          [of utf8_env "Some (js ''filename*1=a.pdf; filename*0=\"'')"]
  by (simp add: eval_defs)

text \<open>
  C8.  \<^verbatim>\<open>rfc2047decode\<close> returns the whole value unchanged (and leaves the flag alone) when
  the value does not start with \<^verbatim>\<open>=?\<close>, and when any character of it, wherever it is,
  lies in 0x00-0x19 or 0x80-0xFF.
\<close>

theorem rfc2047decode_fast_reject:
  "(\<nexists>rest. v = EQUALS # QMARK # rest) \<or> (\<exists>c\<in>set v. c \<le> 0x19 \<or> (0x80 \<le> c \<and> c \<le> 0xFF))
     \<Longrightarrow> rfc2047decode env v flag = Inr (v, flag)"
proof -
  have "take 2 v = js ''=?'' \<longleftrightarrow> (\<exists>rest. v = EQUALS # QMARK # rest)"
    by (cases v; cases "tl v") (auto simp: js_def)
  moreover have "test_control_or_high v \<longleftrightarrow> (\<exists>c\<in>set v. c \<le> 0x19 \<or> (0x80 \<le> c \<and> c \<le> 0xFF))"
    by (auto simp: test_control_or_high_def list_ex_iff)
  moreover assume "(\<nexists>rest. v = EQUALS # QMARK # rest)
      \<or> (\<exists>c\<in>set v. c \<le> 0x19 \<or> (0x80 \<le> c \<and> c \<le> 0xFF))"
  ultimately show ?thesis
    unfolding rfc2047decode_def by auto
qed

text \<open>
  An encoded word that is not at the start, and one followed by the character 0x19 or 0xE9,
  are not decoded; followed by 0x1A it is.
\<close>

theorem rfc2047decode_fast_reject_witness:
  "rfc2047decode utf8_env (js ''x=?UTF-8?Q?a?='') True = Inr (js ''x=?UTF-8?Q?a?='', True)
   \<and> rfc2047decode utf8_env (js ''=?UTF-8?Q?a?='' @ [0x19]) True
       = Inr (js ''=?UTF-8?Q?a?='' @ [0x19], True)
   \<and> rfc2047decode utf8_env (js ''=?UTF-8?Q?a?='' @ [0xE9]) True
       = Inr (js ''=?UTF-8?Q?a?='' @ [0xE9], True)
   \<and> rfc2047decode utf8_env (js ''=?UTF-8?Q?a?='' @ [0x1A]) True = Inr ([0x61, 0x1A], False)"
  using rfc2047decode_fast_reject [of "js ''x=?UTF-8?Q?a?=''" utf8_env True]
        rfc2047decode_fast_reject [of "js ''=?UTF-8?Q?a?='' @ [0x19]" utf8_env True]
        rfc2047decode_fast_reject [of "js ''=?UTF-8?Q?a?='' @ [0xE9]" utf8_env True]
  by (simp add: eval_defs)

text \<open>
  C9.  \<^verbatim>\<open>fixupEncoding\<close> returns the value unchanged when the flag is cleared or when no
  character lies in 0x80-0xFF.  With the flag set and such a character, it decodes as
  UTF-8 and, while the flag is still set, as iso-8859-1.  On a value without a character in
  0x80-0xFF a second application changes nothing.
\<close>

theorem fixupEncoding_cases:
  "(\<not> flag \<or> (\<forall>c\<in>set v. c < 0x80 \<or> 0xFF < c) \<longrightarrow> fixupEncoding env v flag = Inr (v, flag))
   \<and> (flag \<and> (\<exists>c\<in>set v. 0x80 \<le> c \<and> c \<le> 0xFF) \<longrightarrow>
        (\<exists>v1 flag1. textdecode env (js ''utf-8'') v True = Inr (v1, flag1)
           \<and> fixupEncoding env v flag =
               (if flag1 then textdecode env (js ''iso-8859-1'') v1 True else Inr (v1, False))))
   \<and> ((\<forall>c\<in>set v. c < 0x80 \<or> 0xFF < c) \<longrightarrow>
        (\<forall>v' flag'. fixupEncoding env v flag = Inr (v', flag') \<longrightarrow>
           fixupEncoding env v' flag' = Inr (v', flag')))"
proof -
  have h: "test_high v \<longleftrightarrow> (\<exists>c\<in>set v. 0x80 \<le> c \<and> c \<le> 0xFF)"
    by (simp add: test_high_def list_ex_iff)
  have n: "(\<forall>c\<in>set v. c < 0x80 \<or> 0xFF < c) \<longleftrightarrow> \<not> test_high v"
    unfolding h by (auto simp: not_le not_less)
  obtain v1 flag1 where t: "textdecode env (js ''utf-8'') v True = Inr (v1, flag1)"
    using textdecode_returns [of env "js ''utf-8''" v True] by auto
  show ?thesis
    unfolding n using t by (auto simp: fixupEncoding_def h [symmetric])
qed

text \<open>
  The flag cleared; a value without high characters, or with a character above 255 only;
  the euro sign in UTF-8; a lone byte 0xE9, which neither attempt can decode without
  \<^verbatim>\<open>TextDecoder\<close>.
\<close>

theorem fixupEncoding_cases_witness:
  "fixupEncoding bare_env [0xE2, 0x82, 0xAC] False = Inr ([0xE2, 0x82, 0xAC], False)
   \<and> fixupEncoding bare_env (js ''a.pdf'') True = Inr (js ''a.pdf'', True)
   \<and> fixupEncoding bare_env [0x20AC] True = Inr ([0x20AC], True)
   \<and> fixupEncoding bare_env [0xE2, 0x82, 0xAC] True = Inr ([0x20AC], False)
   \<and> fixupEncoding bare_env [0xE9] True = Inr ([0xE9], True)"
  using fixupEncoding_cases [of False "[0xE2, 0x82, 0xAC]" bare_env]
        fixupEncoding_cases [of True "js ''a.pdf''" bare_env]
        fixupEncoding_cases [of True "[0x20AC]" bare_env]
        fixupEncoding_cases [of True "[0xE2, 0x82, 0xAC]" bare_env]
        fixupEncoding_cases [of True "[0xE9]" bare_env]
  by (simp add: eval_defs)

text \<open>
  C10, as stated, fails in its last part.  With a decoder for UTF-8, part 0 of the first
  header is a byte order mark that decodes to the empty string and clears the flag.  The
  reassembly is empty and the plain value is used, but without \<^verbatim>\<open>fixupEncoding\<close>: the
  bytes C3 A9 come back, where the same header without the continuation parameter gives
  the character E9.
\<close>

theorem empty_continuation_counterexample:
  "iter_matches True
       (js ''filename*0*=UTF-8'' @ [APOS, APOS] @ js ''%EF%BB%BF; filename=\"''
          @ [0xC3, 0xA9] @ js ''.pdf\"'')
     = [((js ''0'', js ''*''), js ''UTF-8'' @ [APOS, APOS] @ js ''%EF%BB%BF'')]
   \<and> rfc2231getparam utf8_env
       (js ''filename*0*=UTF-8'' @ [APOS, APOS] @ js ''%EF%BB%BF; filename=\"''
          @ [0xC3, 0xA9] @ js ''.pdf\"'') True
     = Inr ([], False)
   \<and> getFilenameFromContentDispositionHeader utf8_env
       (js ''filename*0*=UTF-8'' @ [APOS, APOS] @ js ''%EF%BB%BF; filename=\"''
          @ [0xC3, 0xA9] @ js ''.pdf\"'')
     = Inr ([0xC3, 0xA9] @ js ''.pdf'')
   \<and> iter_matches True (js ''filename=\"'' @ [0xC3, 0xA9] @ js ''.pdf\"'') = []
   \<and> getFilenameFromContentDispositionHeader utf8_env
       (js ''filename=\"'' @ [0xC3, 0xA9] @ js ''.pdf\"'')
     = Inr ([0xE9] @ js ''.pdf'')"
  by (simp add: eval_defs)

text \<open>
  C10, amended.  When the continuation parameters reassemble to the empty string, the
  function goes on to the plain \<^verbatim>\<open>filename\<close> form, matched on the same header, or
  returns the empty string without it; the plain value is decoded with the flag as the
  reassembly left it.  A header without any continuation parameter reassembles to the
  empty string and leaves the flag set.  So a header whose reassembly is empty and has left
  the flag set gives the result of any header without continuation parameters on which the
  plain pattern captures the same value, or fails as well, when neither header has a
  \<^verbatim>\<open>filename*\<close> parameter.
\<close>

theorem empty_continuation_falls_through:
  "(iter_matches True h = [] \<longrightarrow> rfc2231getparam env h True = Inr ([], True))
   \<and> (toParamRegExp_exec attr_filename_star True h = None \<longrightarrow>
        (\<forall>flag. rfc2231getparam env h True = Inr ([], flag) \<longrightarrow>
           getFilenameFromContentDispositionHeader env h
             = (case toParamRegExp_exec attr_filename True h of
                  Some ((u, v), rest) \<Rightarrow> decode_and_fixup env (rfc2616unquote v) flag
                | None \<Rightarrow> Inr [])))
   \<and> (\<forall>h'. toParamRegExp_exec attr_filename_star True h = None
          \<and> rfc2231getparam env h True = Inr ([], True)
          \<and> toParamRegExp_exec attr_filename_star True h' = None
          \<and> iter_matches True h' = []
          \<and> map_option (\<lambda>m. snd (fst m)) (toParamRegExp_exec attr_filename True h')
              = map_option (\<lambda>m. snd (fst m)) (toParamRegExp_exec attr_filename True h)
          \<longrightarrow> getFilenameFromContentDispositionHeader env h
                = getFilenameFromContentDispositionHeader env h')"
proof -
  have "build_parts env empty_array 0 True = Inr ([], True)"
    by (subst build_parts.simps) (simp add: empty_array_def)
  then have none: "rfc2231getparam env g True = Inr ([], True)" if "iter_matches True g = []" for g
    using that by (simp add: rfc2231getparam_def)
  have through: "getFilenameFromContentDispositionHeader env g
      = (case toParamRegExp_exec attr_filename True g of
           Some ((u, v), rest) \<Rightarrow> decode_and_fixup env (rfc2616unquote v) flag
         | None \<Rightarrow> Inr [])"
    if "toParamRegExp_exec attr_filename_star True g = None"
      and "rfc2231getparam env g True = Inr ([], flag)" for g flag
    using that by (simp add: getFilenameFromContentDispositionHeader_def)
  have same: "getFilenameFromContentDispositionHeader env h
      = getFilenameFromContentDispositionHeader env h'"
    if s: "toParamRegExp_exec attr_filename_star True h = None"
      and c: "rfc2231getparam env h True = Inr ([], True)"
      and s': "toParamRegExp_exec attr_filename_star True h' = None"
      and n': "iter_matches True h' = []"
      and p: "map_option (\<lambda>m. snd (fst m)) (toParamRegExp_exec attr_filename True h')
              = map_option (\<lambda>m. snd (fst m)) (toParamRegExp_exec attr_filename True h)"
    for h'
  proof (cases "toParamRegExp_exec attr_filename True h")
    case None
    with p have "toParamRegExp_exec attr_filename True h' = None" by simp
    with None through [OF s c] through [OF s' none [OF n']] show ?thesis by simp
  next
    case (Some m)
    with p obtain m' where m': "toParamRegExp_exec attr_filename True h' = Some m'"
      and v: "snd (fst m') = snd (fst m)"
      by auto
    from Some m' v through [OF s c] through [OF s' none [OF n']] show ?thesis
      by (simp add: case_prod_beta)
  qed
  from none through same show ?thesis by blast
qed

text \<open>
  An empty part 0, a part 1 without a part 0, and a header without continuation
  parameters, which gives the result of the first header, with the same plain value.  In
  the fourth header the plain pattern matches inside the quoted value of the continuation
  parameter, and that is the value the function goes on with.
\<close>

theorem empty_continuation_falls_through_witness:
  "getFilenameFromContentDispositionHeader bare_env
       (js ''filename*0*='' @ [APOS, APOS] @ js ''; filename=\"'' @ [0xC3, 0xA9] @ js ''.pdf\"'')
     = Inr ([0xE9] @ js ''.pdf'')
   \<and> getFilenameFromContentDispositionHeader bare_env (js ''filename*1=a.pdf'') = Inr []
   \<and> rfc2231getparam bare_env (js ''filename=\"'' @ [0xC3, 0xA9] @ js ''.pdf\"'') True
     = Inr ([], True)
   \<and> getFilenameFromContentDispositionHeader bare_env
       (js ''filename*0*='' @ [APOS, APOS] @ js ''; filename=\"'' @ [0xC3, 0xA9] @ js ''.pdf\"'')
     = getFilenameFromContentDispositionHeader bare_env
         (js ''filename=\"'' @ [0xC3, 0xA9] @ js ''.pdf\"'')
   \<and> getFilenameFromContentDispositionHeader bare_env
       (js ''filename*1=\"; filename=b.pdf\"; filename=a.pdf'')
     = Inr (js ''b.pdf\"'')"
proof -
  let ?h1 = "js ''filename*0*='' @ [APOS, APOS] @ js ''; filename=\"'' @ [0xC3, 0xA9] @ js ''.pdf\"''"
  let ?h2 = "js ''filename*1=a.pdf''"
  let ?h3 = "js ''filename=\"'' @ [0xC3, 0xA9] @ js ''.pdf\"''"
  let ?h4 = "js ''filename*1=\"; filename=b.pdf\"; filename=a.pdf''"
  let ?v = "js ''\"'' @ [0xC3, 0xA9] @ js ''.pdf\"''"
  have star1: "toParamRegExp_exec attr_filename_star True ?h1 = None"
    by (simp add: eval_defs)
  have cont1: "rfc2231getparam bare_env ?h1 True = Inr ([], True)"
    by (simp add: eval_defs)
  have plain1: "toParamRegExp_exec attr_filename True ?h1 = Some (((), ?v), [])"
    by (simp add: eval_defs)
  have fin1: "decode_and_fixup bare_env (rfc2616unquote ?v) True = Inr ([0xE9] @ js ''.pdf'')"
    by (simp add: eval_defs)
  have r1: "getFilenameFromContentDispositionHeader bare_env ?h1 = Inr ([0xE9] @ js ''.pdf'')"
    using empty_continuation_falls_through [of ?h1 bare_env] star1 cont1 plain1 fin1 by auto
  have star2: "toParamRegExp_exec attr_filename_star True ?h2 = None"
    by (simp add: eval_defs)
  have cont2: "rfc2231getparam bare_env ?h2 True = Inr ([], True)"
    by (simp add: eval_defs)
  have plain2: "toParamRegExp_exec attr_filename True ?h2 = None"
    by (simp add: eval_defs)
  have r2: "getFilenameFromContentDispositionHeader bare_env ?h2 = Inr []"
    using empty_continuation_falls_through [of ?h2 bare_env] star2 cont2 plain2 by auto
  have none3: "iter_matches True ?h3 = []"
    by (simp add: eval_defs)
  have r3: "rfc2231getparam bare_env ?h3 True = Inr ([], True)"
    using empty_continuation_falls_through [of ?h3 bare_env] none3 by auto
  have star3: "toParamRegExp_exec attr_filename_star True ?h3 = None"
    by (simp add: eval_defs)
  have plain3: "toParamRegExp_exec attr_filename True ?h3 = Some (((), ?v), [])"
    by (simp add: eval_defs)
  have r13: "getFilenameFromContentDispositionHeader bare_env ?h1
      = getFilenameFromContentDispositionHeader bare_env ?h3"
    using empty_continuation_falls_through [of ?h1 bare_env] star1 cont1 star3 none3
      plain1 plain3
    by auto
  have star4: "toParamRegExp_exec attr_filename_star True ?h4 = None"
    by (simp add: eval_defs)
  have cont4: "rfc2231getparam bare_env ?h4 True = Inr ([], True)"
    by (simp add: eval_defs)
  have plain4: "toParamRegExp_exec attr_filename True ?h4
      = Some (((), js ''b.pdf\"''), js ''; filename=a.pdf'')"
    by (simp add: eval_defs)
  have fin4: "decode_and_fixup bare_env (rfc2616unquote (js ''b.pdf\"'')) True
      = Inr (js ''b.pdf\"'')"
    by (simp add: eval_defs)
  have r4: "getFilenameFromContentDispositionHeader bare_env ?h4 = Inr (js ''b.pdf\"'')"
    using empty_continuation_falls_through [of ?h4 bare_env] star4 cont4 plain4 fin4 by auto
  from r1 r2 r3 r13 r4 show ?thesis by blast
qed

end
